theory Spec2Isabelle
  imports Complex_Main "HOL-Library.Product_Lexorder"
begin

section \<open>Conventions of the embedding\<close>

text \<open>
  The dashboard's zone sampler, synthetic incident generator, storage step and hotspot
  aggregator are embedded as HOL functions.

  \<^item> Python floats are idealised as exact reals (\<^typ>\<open>real\<close>): comparisons, \<open>min\<close>,
    \<open>max\<close> and the four arithmetic operations are the mathematical ones, and rounding
    errors of IEEE doubles are outside the model. The one exception is the mean of the
    centroid fallback, \<open>sum(lats) / len(lats)\<close>: whether it lies between the least and
    the greatest vertex coordinate depends on its rounding, so each of its additions and
    its division round to double precision.
  \<^item> Every \<open>raise\<close> of the source is a value \<open>Inl e\<close> of a sum type.
  \<^item> The module-level random generator is an explicit infinite sequence of draws of
    \<open>random.random()\<close>; every call of the \<open>random\<close> module consumes one draw.
  \<^item> A \<open>datetime\<close> is the number of microseconds since \<open>0001-01-01T00:00:00\<close>
    (\<open>datetime.min\<close>), a \<open>timedelta\<close> a number of microseconds.
\<close>

datatype py_error =
  IndexError | ValueError | ZeroDivisionError | UnboundLocalError | OverflowError

type_synonym point = "real \<times> real"
type_synonym polygon = "point list"

definition bind_res :: "py_error + 'a \<Rightarrow> ('a \<Rightarrow> py_error + 'b) \<Rightarrow> py_error + 'b" where
  "bind_res m f = (case m of Inl e \<Rightarrow> Inl e | Inr x \<Rightarrow> f x)"

text \<open>\<open>returned r\<close> is the value a call returns, without the state it leaves.\<close>

definition returned :: "py_error + ('a \<times> 'b) \<Rightarrow> py_error + 'a" where
  "returned r = map_sum id fst r"

section \<open>The point-in-polygon test (\<open>data.py\<close>, \<open>_point_in_polygon\<close>)\<close>

text \<open>
  The loop state is \<open>(inside, (p1_lat, p1_lon), xinters)\<close>. The local variable
  \<open>xinters\<close> is \<open>None\<close> while it is unassigned and keeps its value from one iteration
  to the next, as a Python local does. Reading it while unassigned is
  \<open>UnboundLocalError\<close>; dividing by zero is \<open>ZeroDivisionError\<close>.
\<close>

type_synonym pip_state = "bool \<times> point \<times> real option"

definition pip_assign :: "real \<Rightarrow> point \<Rightarrow> point \<Rightarrow> real option \<Rightarrow> py_error + real option" where
  "pip_assign lon p1 p2 xi =
     (if snd p1 \<noteq> snd p2 then
        (if snd p2 - snd p1 = 0 then Inl ZeroDivisionError
         else Inr (Some ((lon - snd p1) * (fst p2 - fst p1) / (snd p2 - snd p1) + fst p1)))
      else Inr xi)"

definition pip_toggle :: "real \<Rightarrow> point \<Rightarrow> point \<Rightarrow> real option \<Rightarrow> py_error + bool" where
  "pip_toggle lat p1 p2 xi =
     (if fst p1 = fst p2 then Inr True
      else (case xi of None \<Rightarrow> Inl UnboundLocalError | Some x \<Rightarrow> Inr (lat \<le> x)))"

definition pip_step :: "point \<Rightarrow> point \<Rightarrow> pip_state \<Rightarrow> py_error + pip_state" where
  "pip_step pt p2 st =
     (case st of (inside, p1, xi) \<Rightarrow>
        (if snd pt > min (snd p1) (snd p2) then
           (if snd pt \<le> max (snd p1) (snd p2) then
              (if fst pt \<le> max (fst p1) (fst p2) then
                 bind_res (pip_assign (snd pt) p1 p2 xi) (\<lambda>xi'.
                 bind_res (pip_toggle (fst pt) p1 p2 xi') (\<lambda>t.
                 Inr (if t then \<not> inside else inside, p2, xi')))
               else Inr (inside, p2, xi))
            else Inr (inside, p2, xi))
         else Inr (inside, p2, xi)))"

fun pip_loop :: "point \<Rightarrow> point list \<Rightarrow> pip_state \<Rightarrow> py_error + pip_state" where
  "pip_loop pt [] st = Inr st"
| "pip_loop pt (p2 # ps) st = bind_res (pip_step pt p2 st) (pip_loop pt ps)"

text \<open>The vertices visited by \<open>for i in range(1, n + 1): polygon[i % n]\<close>.\<close>

definition pip_visits :: "polygon \<Rightarrow> point list" where
  "pip_visits polygon = map (\<lambda>i. polygon ! (i mod length polygon)) [1..<length polygon + 1]"

definition point_in_polygon :: "point \<Rightarrow> polygon \<Rightarrow> py_error + bool" where
  "point_in_polygon pt polygon =
     (case polygon of
        [] \<Rightarrow> Inl IndexError
      | p0 # _ \<Rightarrow>
          bind_res (pip_loop pt (pip_visits polygon) (False, p0, None)) (\<lambda>st. Inr (fst st)))"

section \<open>The random source and the built-ins used by the sampler\<close>

text \<open>
  \<open>rng_next\<close> is \<open>random.random()\<close>. \<open>random.uniform(a, b)\<close> is
  \<open>a + (b - a) * random()\<close>; \<open>randint(a, b)\<close> is \<open>randrange(a, b + 1)\<close>, which raises
  \<open>ValueError\<close> on an empty range; \<open>choice\<close> raises \<open>IndexError\<close> on an empty
  sequence. The index below \<open>n\<close> that \<open>randrange\<close> and \<open>choice\<close> pick is taken as
  \<open>\<lfloor>r * n\<rfloor>\<close> for one draw \<open>r\<close>.
\<close>

type_synonym rng = "nat \<Rightarrow> real"

definition rng_next :: "rng \<Rightarrow> real \<times> rng" where
  "rng_next g = (g 0, \<lambda>i. g (Suc i))"

definition rng_drop :: "nat \<Rightarrow> rng \<Rightarrow> rng" where
  "rng_drop k g = (\<lambda>i. g (k + i))"

definition unit_draws :: "rng \<Rightarrow> bool" where
  "unit_draws g \<longleftrightarrow> (\<forall>i. 0 \<le> g i \<and> g i < 1)"

definition uniform :: "real \<Rightarrow> real \<Rightarrow> rng \<Rightarrow> real \<times> rng" where
  "uniform a b g = (case rng_next g of (r, g') \<Rightarrow> (a + (b - a) * r, g'))"

definition randbelow :: "int \<Rightarrow> rng \<Rightarrow> int \<times> rng" where
  "randbelow n g = (case rng_next g of (r, g') \<Rightarrow> (\<lfloor>r * real_of_int n\<rfloor>, g'))"

definition randrange :: "int \<Rightarrow> int \<Rightarrow> rng \<Rightarrow> py_error + (int \<times> rng)" where
  "randrange start stop g =
     (if stop - start > 0
      then (case randbelow (stop - start) g of (k, g') \<Rightarrow> Inr (start + k, g'))
      else Inl ValueError)"

definition randint :: "int \<Rightarrow> int \<Rightarrow> rng \<Rightarrow> py_error + (int \<times> rng)" where
  "randint a b g = randrange a (b + 1) g"

definition choice :: "'a list \<Rightarrow> rng \<Rightarrow> py_error + ('a \<times> rng)" where
  "choice seq g =
     (if length seq = 0 then Inl IndexError
      else (case randbelow (int (length seq)) g of (k, g') \<Rightarrow>
              if 0 \<le> k \<and> k < int (length seq) then Inr (seq ! nat k, g') else Inl IndexError))"

fun py_min :: "real list \<Rightarrow> py_error + real" where
  "py_min [] = Inl ValueError"
| "py_min (x # xs) = Inr (fold min xs x)"

fun py_max :: "real list \<Rightarrow> py_error + real" where
  "py_max [] = Inl ValueError"
| "py_max (x # xs) = Inr (fold max xs x)"

section \<open>Rounding to double precision\<close>

text \<open>
  \<open>rint\<close> rounds to the nearest integer, halves to even. \<open>binade x\<close> is the exponent
  \<open>e\<close> with \<open>2 ^ e \<le> x < 2 ^ (e + 1)\<close> of a positive \<open>x\<close>, not below \<open>-1022\<close>, the
  exponent of the subnormal numbers. \<open>fl x\<close> is the double nearest to \<open>x\<close>, halves to
  the even significand: the multiple of \<open>2 ^ (e - 52)\<close> nearest to \<open>x\<close>. Overflow to
  infinity (magnitudes from \<open>2 ^ 1024\<close> on) is not modelled. \<open>float_sum\<close> is the built-in
  \<open>sum\<close> on floats: it adds from left to right, starting from 0, and rounds every
  addition.
\<close>

definition rint :: "real \<Rightarrow> int" where
  "rint y =
     (let f = \<lfloor>y\<rfloor>; d = y - real_of_int f
      in if d < 1 / 2 then f else if 1 / 2 < d then f + 1 else if even f then f else f + 1)"

function exp_up :: "real \<Rightarrow> int \<Rightarrow> int" where
  "exp_up x e = (if 2 \<le> x then exp_up (x / 2) (e + 1) else e)"
  by pat_completeness auto
termination
proof (relation "measure (\<lambda>(x, e). nat \<lfloor>x\<rfloor>)")
  show "wf (measure (\<lambda>(x :: real, e :: int). nat \<lfloor>x\<rfloor>))" by simp
next
  fix x :: real and e :: int
  assume x: "2 \<le> x"
  have "x / 2 \<le> x - 1" using x by simp
  then have "\<lfloor>x / 2\<rfloor> \<le> \<lfloor>x - 1\<rfloor>" by (rule floor_mono)
  moreover have "2 \<le> \<lfloor>x\<rfloor>" using x by (simp add: le_floor_iff)
  ultimately show "((x / 2, e + 1), (x, e)) \<in> measure (\<lambda>(x, e). nat \<lfloor>x\<rfloor>)" by simp
qed

function exp_down :: "real \<Rightarrow> int \<Rightarrow> int" where
  "exp_down x e = (if x < 1 \<and> - 1022 < e then exp_down (2 * x) (e - 1) else e)"
  by pat_completeness auto
termination
  by (relation "measure (\<lambda>(x, e). nat (e + 1022))") auto

declare exp_up.simps [simp del] exp_down.simps [simp del]

definition binade :: "real \<Rightarrow> int" where
  "binade x = (if 2 \<le> x then exp_up x 0 else exp_down x 0)"

definition pow2 :: "int \<Rightarrow> real" where
  "pow2 k = (if 0 \<le> k then 2 ^ nat k else 1 / 2 ^ nat (- k))"

definition fl :: "real \<Rightarrow> real" where
  "fl x =
     (if x = 0 then 0
      else let ulp = pow2 (binade \<bar>x\<bar> - 52) in real_of_int (rint (x / ulp)) * ulp)"

definition float_sum :: "real list \<Rightarrow> real" where
  "float_sum xs = fold (\<lambda>x acc. fl (acc + x)) xs 0"

section \<open>The zone sampler (\<open>data.py\<close>, \<open>_generate_point_in_bounds\<close>)\<close>

text \<open>
  \<open>retry_loop k\<close> is the \<open>for _ in range(100)\<close> loop with \<open>k\<close> iterations left; it
  returns \<open>Some\<close> of the point of its early \<open>return\<close>, or \<open>None\<close> when the loop runs
  out. The box is \<open>(min_lat, max_lat, min_lon, max_lon)\<close>. \<open>mean xs\<close> is
  \<open>sum(xs) / len(xs)\<close> in double precision.
\<close>

type_synonym box = "real \<times> real \<times> real \<times> real"

fun retry_loop :: "nat \<Rightarrow> polygon \<Rightarrow> box \<Rightarrow> rng \<Rightarrow> py_error + (point option \<times> rng)" where
  "retry_loop 0 bounds bb g = Inr (None, g)"
| "retry_loop (Suc k) bounds bb g =
     (case bb of (min_lat, max_lat, min_lon, max_lon) \<Rightarrow>
      case uniform min_lat max_lat g of (lat, g1) \<Rightarrow>
      case uniform min_lon max_lon g1 of (lon, g2) \<Rightarrow>
        bind_res (point_in_polygon (lat, lon) bounds) (\<lambda>b.
          if b then Inr (Some (lat, lon), g2) else retry_loop k bounds bb g2))"

definition bounding_box :: "polygon \<Rightarrow> py_error + box" where
  "bounding_box bounds =
     bind_res (py_min (map fst bounds)) (\<lambda>min_lat.
     bind_res (py_max (map fst bounds)) (\<lambda>max_lat.
     bind_res (py_min (map snd bounds)) (\<lambda>min_lon.
     bind_res (py_max (map snd bounds)) (\<lambda>max_lon.
     Inr (min_lat, max_lat, min_lon, max_lon)))))"

definition mean :: "real list \<Rightarrow> py_error + real" where
  "mean xs =
     (if length xs = 0 then Inl ZeroDivisionError
      else Inr (fl (float_sum xs / real (length xs))))"

definition centroid :: "polygon \<Rightarrow> py_error + point" where
  "centroid bounds =
     bind_res (mean (map fst bounds)) (\<lambda>la.
     bind_res (mean (map snd bounds)) (\<lambda>lo. Inr (la, lo)))"

definition generate_point_in_bounds :: "polygon \<Rightarrow> rng \<Rightarrow> py_error + (point \<times> rng)" where
  "generate_point_in_bounds bounds g =
     bind_res (bounding_box bounds) (\<lambda>bb.
     bind_res (retry_loop 100 bounds bb g) (\<lambda>res.
       case fst res of
         Some p \<Rightarrow> Inr (p, snd res)
       | None \<Rightarrow> bind_res (centroid bounds) (\<lambda>c. Inr (c, snd res))))"

text \<open>The \<open>j\<close>-th candidate the loop draws: draws \<open>2 j\<close> and \<open>2 j + 1\<close> of the source.\<close>

definition candidate :: "box \<Rightarrow> rng \<Rightarrow> nat \<Rightarrow> point" where
  "candidate bb g j =
     (case bb of (min_lat, max_lat, min_lon, max_lon) \<Rightarrow>
        (min_lat + (max_lat - min_lat) * g (2 * j), min_lon + (max_lon - min_lon) * g (2 * j + 1)))"


text \<open>The axis-aligned bounding box of the vertices, as least and greatest coordinates.\<close>

definition vertex_box :: "polygon \<Rightarrow> box" where
  "vertex_box bounds =
     (Min (fst ` set bounds), Max (fst ` set bounds), Min (snd ` set bounds), Max (snd ` set bounds))"

section \<open>Dates and formatting\<close>

text \<open>
  \<open>timedelta(days, hours, minutes, seconds)\<close> raises \<open>OverflowError\<close> when its
  normalised day count exceeds 999999999 in magnitude; subtracting it from a
  \<open>datetime\<close> raises \<open>OverflowError\<close> when the result leaves
  \<open>[datetime.min, datetime.max]\<close>. \<open>year_of\<close> is the proleptic Gregorian year, computed
  as the standard library does from the day number.
\<close>

type_synonym datetime = int
type_synonym timedelta = int

definition us_per_day :: int where
  "us_per_day = 86400000000"

definition timedelta :: "int \<Rightarrow> int \<Rightarrow> int \<Rightarrow> int \<Rightarrow> py_error + timedelta" where
  "timedelta days hours minutes seconds =
     (let us = (((days * 24 + hours) * 60 + minutes) * 60 + seconds) * 1000000
      in if \<bar>us div us_per_day\<bar> > 999999999 then Inl OverflowError else Inr us)"

definition datetime_sub :: "datetime \<Rightarrow> timedelta \<Rightarrow> py_error + datetime" where
  "datetime_sub t td =
     (if 0 \<le> t - td \<and> t - td < 3652059 * us_per_day then Inr (t - td) else Inl OverflowError)"

definition year_of :: "datetime \<Rightarrow> int" where
  "year_of t =
     (let n = t div us_per_day;
          n400 = n div 146097; r400 = n mod 146097;
          n100 = r400 div 36524; r100 = r400 mod 36524;
          n4 = r100 div 1461; r4 = r100 mod 1461;
          n1 = r4 div 365;
          y = n400 * 400 + 1 + n100 * 100 + n4 * 4 + n1
      in if n1 = 4 \<or> n100 = 4 then y - 1 else y)"

function digits10 :: "int \<Rightarrow> string" where
  "digits10 n =
     (if n < 10 then [''0123456789'' ! nat n]
      else digits10 (n div 10) @ [''0123456789'' ! nat (n mod 10)])"
  by pat_completeness auto
termination
  by (relation "measure nat") auto

declare digits10.simps [simp del]

definition str_int :: "int \<Rightarrow> string" where
  "str_int i = (if i < 0 then CHR ''-'' # digits10 (- i) else digits10 i)"

text \<open>The format \<open>{v:0wd}\<close> of a non-negative \<open>v\<close>: decimal digits, zero-padded to
  width \<open>w\<close>.\<close>

definition zero_pad :: "nat \<Rightarrow> int \<Rightarrow> string" where
  "zero_pad w v = (let d = str_int v in replicate (w - length d) CHR ''0'' @ d)"

section \<open>Incident records\<close>

text \<open>
  A row has the columns of \<open>SCHEMA_COLUMNS\<close>. The column \<open>id\<close> is called \<open>id_col\<close>.
  The columns \<open>date\<close> and \<open>updated_on\<close> hold the \<open>datetime\<close> whose ISO text the
  source stores, and \<open>location\<close> holds the pair whose text \<open>(lat, lon)\<close> it stores.
  Functions that read only the coordinates are typed on any row with the two
  coordinate columns.
\<close>

record geo =
  latitude :: "real option"
  longitude :: "real option"

record incident = geo +
  id_col :: string
  case_number :: string
  date :: datetime
  block :: string
  iucr :: string
  primary_type :: string
  description :: string
  location_description :: string
  arrest :: bool
  domestic :: bool
  beat :: string
  district :: string
  ward :: string
  community_area :: string
  fbi_code :: "string option"
  year :: int
  updated_on :: datetime
  x_coordinate :: "real option"
  y_coordinate :: "real option"
  location :: "point option"

definition CRIME_TYPES_AREQUIPA :: "(string \<times> string list) list" where
  "CRIME_TYPES_AREQUIPA =
     [(''ROBO'', [''Robo con violencia'', ''Robo de veh'' @ [CHR 0xED] @ ''culo'',
                 ''Robo a transe'' @ [CHR 0xFA] @ ''nte'']),
      (''ASALTO'', [''Asalto y lesiones'', ''Agresi'' @ [CHR 0xF3] @ ''n f'' @ [CHR 0xED] @ ''sica'',
                   ''Ri'' @ [CHR 0xF1] @ ''a callejera'']),
      (''HURTO'', [''Hurto simple'', ''Hurto de celular'', ''Carterismo'']),
      (''VANDALISMO'', [''Da'' @ [CHR 0xF1] @ ''o a propiedad'', ''Grafiti'',
                       ''Destrucci'' @ [CHR 0xF3] @ ''n de bienes'']),
      (''VIOLENCIA FAMILIAR'', [''Violencia dom'' @ [CHR 0xE9] @ ''stica'', ''Maltrato familiar'']),
      (''ESTAFA'', [''Fraude'', ''Estafa telef'' @ [CHR 0xF3] @ ''nica'',
                   ''Clonaci'' @ [CHR 0xF3] @ ''n de tarjetas''])]"

definition LOCATIONS_AREQUIPA :: "string list" where
  "LOCATIONS_AREQUIPA =
     [''CALLE'', ''AVENIDA'', ''PARQUE'', ''PLAZA'', ''TIENDA'', ''RESTAURANTE'',
      ''RESIDENCIA'', ''BANCO'', ''MERCADO'', ''TRANSPORTE P'' @ [CHR 0xDA] @ ''BLICO'',
      ''ESTACIONAMIENTO'']"

definition dict_get :: "('k \<times> 'v) list \<Rightarrow> 'k \<Rightarrow> 'v \<Rightarrow> 'v" where
  "dict_get d k dflt = (case map_of d k of None \<Rightarrow> dflt | Some v \<Rightarrow> v)"

section \<open>The synthetic incident generator (\<open>data.py\<close>, \<open>generate_random_records_in_zone\<close>)\<close>

text \<open>
  \<open>row_date\<close> is the part of the loop body that draws \<open>days_ago\<close>, \<open>hours_ago\<close> and
  \<open>minutes_ago\<close> and subtracts them from \<open>now\<close>. \<open>gen_row\<close> is the whole body for
  index \<open>i\<close>, with the draws in the order the source makes them; \<open>ms\<close> is
  \<open>int(time.time() * 1000)\<close> as read in that iteration.
\<close>

definition row_date :: "datetime \<Rightarrow> int \<Rightarrow> rng \<Rightarrow> py_error + (datetime \<times> rng)" where
  "row_date now days_back g =
     bind_res (randint 0 days_back g) (\<lambda>d.
     bind_res (randint 0 23 (snd d)) (\<lambda>h.
     bind_res (randint 0 59 (snd h)) (\<lambda>m.
     bind_res (timedelta (fst d) (fst h) (fst m) 0) (\<lambda>td.
     bind_res (datetime_sub now td) (\<lambda>record_date.
     Inr (record_date, snd m))))))"

definition row_tail :: "rng \<Rightarrow> py_error + ((string \<times> string \<times> string \<times> bool \<times> real \<times> string \<times> string \<times> string \<times> string) \<times> rng)" where
  "row_tail g =
     bind_res (choice [''AV'', ''CALLE'', ''JR''] g) (\<lambda>pre.
     bind_res (randint 100 999 (snd pre)) (\<lambda>num.
     bind_res (randint 1000 9999 (snd num)) (\<lambda>iu.
     bind_res (choice LOCATIONS_AREQUIPA (snd iu)) (\<lambda>loc.
     (case rng_next (snd loc) of (ra, g1) \<Rightarrow>
      case rng_next g1 of (rd, g2) \<Rightarrow>
     bind_res (randint 100 999 g2) (\<lambda>be.
     bind_res (randint 1 10 (snd be)) (\<lambda>di.
     bind_res (randint 1 29 (snd di)) (\<lambda>wa.
     bind_res (randint 1 77 (snd wa)) (\<lambda>ca.
     Inr ((fst pre @ '' '' @ str_int (fst num), str_int (fst iu), fst loc, ra < 0.15, rd,
           str_int (fst be), zero_pad 2 (fst di), str_int (fst wa), str_int (fst ca)),
          snd ca))))))))))"

definition gen_row ::
  "datetime \<Rightarrow> int \<Rightarrow> polygon \<Rightarrow> string list \<Rightarrow> int \<Rightarrow> nat \<Rightarrow> rng \<Rightarrow> py_error + (incident \<times> rng)" where
  "gen_row now ms zone_bounds crime_types days_back i g =
     bind_res (generate_point_in_bounds zone_bounds g) (\<lambda>pt.
     bind_res (choice crime_types (snd pt)) (\<lambda>primary.
     bind_res (choice (dict_get CRIME_TYPES_AREQUIPA (fst primary) [''Incidente'']) (snd primary)) (\<lambda>descr.
     bind_res (row_date now days_back (snd descr)) (\<lambda>rd.
     bind_res (row_tail (snd rd)) (\<lambda>rest.
       case fst rest of (blk, iu, loc, arr, dm, be, di, wa, ca) \<Rightarrow>
       Inr (\<lparr> latitude = Some (fst (fst pt)), longitude = Some (snd (fst pt)),
              id_col = ''ARQ-'' @ str_int ms @ ''-'' @ str_int (int i),
              case_number = ''AQP'' @ str_int (year_of (fst rd)) @ zero_pad 6 (int i),
              date = fst rd, block = blk, iucr = iu,
              primary_type = fst primary, description = fst descr,
              location_description = loc, arrest = arr,
              domestic = (if fst primary = ''VIOLENCIA FAMILIAR'' then dm < 0.25 else dm < 0.05),
              beat = be, district = di, ward = wa, community_area = ca,
              fbi_code = None, year = year_of (fst rd), updated_on = now,
              x_coordinate = None, y_coordinate = None,
              location = Some (fst pt) \<rparr>,
            snd rest))))))"

fun gen_rows ::
  "datetime \<Rightarrow> (nat \<Rightarrow> int) \<Rightarrow> polygon \<Rightarrow> string list \<Rightarrow> int \<Rightarrow> nat list \<Rightarrow> rng
     \<Rightarrow> py_error + (incident list \<times> rng)" where
  "gen_rows now time_ms zone_bounds crime_types days_back [] g = Inr ([], g)"
| "gen_rows now time_ms zone_bounds crime_types days_back (i # is) g =
     bind_res (gen_row now (time_ms i) zone_bounds crime_types days_back i g) (\<lambda>r.
     bind_res (gen_rows now time_ms zone_bounds crime_types days_back is (snd r)) (\<lambda>rs.
     Inr (fst r # fst rs, snd rs)))"

text \<open>
  The environment of a call: the reading of \<open>datetime.utcnow()\<close>, the readings of
  \<open>time.time()\<close> in milliseconds per iteration, the random source and the session's
  frame of synthetic records. \<open>_records_to_dataframe\<close> keeps the rows and their order,
  and \<open>add_records_to_session\<close> puts the new frame in front of the stored one.
\<close>

record gen_env =
  env_now :: datetime
  env_time_ms :: "nat \<Rightarrow> int"
  env_rng :: rng
  env_session :: "incident list"

definition generate_random_records_in_zone ::
  "int \<Rightarrow> polygon \<Rightarrow> string list option \<Rightarrow> int \<Rightarrow> bool \<Rightarrow> gen_env
     \<Rightarrow> py_error + (incident list \<times> gen_env)" where
  "generate_random_records_in_zone n zone_bounds crime_types days_back store_in_session env =
     (let types = (case crime_types of None \<Rightarrow> map fst CRIME_TYPES_AREQUIPA | Some ts \<Rightarrow> ts)
      in bind_res (gen_rows (env_now env) (env_time_ms env) zone_bounds types days_back
                     [0..<nat n] (env_rng env)) (\<lambda>rs.
           Inr (fst rs,
                env\<lparr> env_rng := snd rs,
                     env_session := (if store_in_session then fst rs @ env_session env
                                     else env_session env) \<rparr>)))"

section \<open>The storage step (\<open>db_postgres.py\<close>, \<open>insert_crimes\<close>)\<close>

text \<open>
  \<open>_enforce_recent_date\<close> assigns three entries of the record it is given; the record
  is the caller's dictionary, so the caller sees the assignments. The model returns the
  records as they are after the call. The call sits in \<open>try ... except Exception: pass\<close>:
  when it raises (the subtraction is the only step that can, and it comes after both
  draws and before every assignment) the record is left as it was.
\<close>

definition enforce_recent_date :: "datetime \<Rightarrow> incident \<Rightarrow> rng \<Rightarrow> py_error + (incident \<times> rng)" where
  "enforce_recent_date now rec g =
     bind_res (randint 0 59 g) (\<lambda>extra_minutes.
     bind_res (randint 0 59 (snd extra_minutes)) (\<lambda>extra_seconds.
     bind_res (timedelta 0 1 (fst extra_minutes) (fst extra_seconds)) (\<lambda>td.
     bind_res (datetime_sub now td) (\<lambda>new_date.
     Inr (rec\<lparr> date := new_date, updated_on := now, year := year_of new_date \<rparr>,
          snd extra_seconds)))))"

text \<open>\<open>now_at k\<close> is the reading of \<open>datetime.utcnow()\<close> made for the record at
  position \<open>k\<close>.\<close>

fun enforce_all :: "(nat \<Rightarrow> datetime) \<Rightarrow> nat \<Rightarrow> incident list \<Rightarrow> rng \<Rightarrow> incident list \<times> rng" where
  "enforce_all now_at k [] g = ([], g)"
| "enforce_all now_at k (r # rs) g =
     (case (case enforce_recent_date (now_at k) r g of
              Inr x \<Rightarrow> x
            | Inl e \<Rightarrow> (r, rng_drop 2 g)) of (r', g') \<Rightarrow>
      case enforce_all now_at (Suc k) rs g' of (rs', g'') \<Rightarrow> (r' # rs', g''))"

text \<open>
  The table \<open>crimes\<close> is a map from the primary key \<open>id\<close> to the stored row; the
  inserted columns are the schema's without \<open>x_coordinate\<close> and \<open>y_coordinate\<close>.
  Both back ends replace the row of a key that is already present.
\<close>

definition db_row :: "incident \<Rightarrow> incident" where
  "db_row rec = rec\<lparr> x_coordinate := None, y_coordinate := None \<rparr>"

definition upsert :: "incident \<Rightarrow> (string \<rightharpoonup> incident) \<Rightarrow> (string \<rightharpoonup> incident)" where
  "upsert rec db = db(id_col rec \<mapsto> db_row rec)"

record store_env =
  st_now :: "nat \<Rightarrow> datetime"
  st_rng :: rng
  st_db :: "string \<rightharpoonup> incident"

definition insert_crimes :: "incident list \<Rightarrow> store_env \<Rightarrow> incident list \<times> store_env" where
  "insert_crimes records env =
     (if records = [] then (records, env)
      else (case enforce_all (st_now env) 0 records (st_rng env) of (recs, g') \<Rightarrow>
              (recs, env\<lparr> st_rng := g', st_db := fold upsert recs (st_db env) \<rparr>)))"

text \<open>
  \<open>restamped now r r'\<close>: the record \<open>r'\<close> is \<open>r\<close> with \<open>date\<close>, \<open>updated_on\<close> and
  \<open>year\<close> replaced, the new \<open>date\<close> being more than one and less than two hours
  before \<open>now\<close>, \<open>updated_on\<close> being \<open>now\<close> and \<open>year\<close> the year of the new \<open>date\<close>.
\<close>

definition restamped :: "datetime \<Rightarrow> incident \<Rightarrow> incident \<Rightarrow> bool" where
  "restamped now r r' \<longleftrightarrow>
     r' = r\<lparr> date := date r', updated_on := now, year := year_of (date r') \<rparr> \<and>
     now - 7200000000 < date r' \<and> date r' \<le> now - 3600000000"

section \<open>The hotspot aggregator (\<open>viz.py\<close>, \<open>show_map_points_and_heat\<close>)\<close>

text \<open>
  \<open>dropna_coords\<close> is \<open>df.dropna(subset=['latitude', 'longitude'])\<close>, a missing value
  being \<open>None\<close>. \<open>round2\<close> is \<open>.round(2)\<close>: \<open>rint\<close> of the hundredfold, divided by 100. \<open>groupby(...).size()\<close> yields one row per distinct key, in
  ascending order of the keys, with the number of rows of that key.
  \<open>show_map_points_and_heat\<close> returns the table \<open>hotspots\<close> the function computes; it
  is empty when the function returns early or shows no table.
\<close>

definition dropna_coords :: "'a geo_scheme list \<Rightarrow> 'a geo_scheme list" where
  "dropna_coords df = filter (\<lambda>r. latitude r \<noteq> None \<and> longitude r \<noteq> None) df"

definition round2 :: "real \<Rightarrow> real" where
  "round2 x = real_of_int (rint (x * 100)) / 100"

definition bin_key :: "'a geo_scheme \<Rightarrow> point option" where
  "bin_key r =
     (case latitude r of
        None \<Rightarrow> None
      | Some la \<Rightarrow> (case longitude r of None \<Rightarrow> None | Some lo \<Rightarrow> Some (round2 la, round2 lo)))"

definition group_sizes :: "point list \<Rightarrow> (point \<times> nat) list" where
  "group_sizes keys = map (\<lambda>k. (k, count_list keys k)) (sort (remdups keys))"

definition show_map_points_and_heat :: "'a geo_scheme list \<Rightarrow> int \<Rightarrow> (point \<times> nat) list" where
  "show_map_points_and_heat df heat_threshold =
     (let mdf = dropna_coords df
      in if mdf = [] then []
         else filter (\<lambda>kc. int (snd kc) > heat_threshold)
                (group_sizes (List.map_filter bin_key mdf)))"

text \<open>The number of rows of the frame that fall in the bucket with key \<open>k\<close>.\<close>

definition bucket_count :: "'a geo_scheme list \<Rightarrow> point \<Rightarrow> nat" where
  "bucket_count df k = length (filter (\<lambda>r. bin_key r = Some k) df)"

section \<open>Inputs used in the examples\<close>

text \<open>
  \<open>unit_square\<close> is the square with corners \<open>(0, 0)\<close>, \<open>(0, 1)\<close>, \<open>(1, 1)\<close>, \<open>(1, 0)\<close>.
  \<open>demo_env\<close> and \<open>demo_store\<close> are environments in which the clock reads a time in
  2025 (one minute later in \<open>demo_store\<close>) and every draw of the random source is \<open>1/2\<close>.
\<close>

definition unit_square :: polygon where
  "unit_square = [(0, 0), (0, 1), (1, 1), (1, 0)]"

definition demo_env :: gen_env where
  "demo_env = \<lparr> env_now = 63900000000000000, env_time_ms = (\<lambda>i. 1700000000000),
                 env_rng = (\<lambda>i. 1 / 2), env_session = [] \<rparr>"

definition demo_store :: store_env where
  "demo_store = \<lparr> st_now = (\<lambda>k. 63900000060000000), st_rng = (\<lambda>i. 1 / 2), st_db = Map.empty \<rparr>"

section \<open>Properties of the point-in-polygon test\<close>

lemma bind_res_simps [simp]:
  "bind_res (Inl e) f = Inl e"
  "bind_res (Inr x) f = f x"
  by (simp_all add: bind_res_def)

lemma bind_res_Inr_iff:
  "bind_res m f = Inr y \<longleftrightarrow> (\<exists>x. m = Inr x \<and> f x = Inr y)"
  by (cases m) simp_all

lemma pip_step_total: "\<exists>i x. pip_step pt p2 (ins, p1, xi) = Inr (i, p2, x)"
  by (auto simp: pip_step_def pip_assign_def pip_toggle_def min_def max_def)

lemma pip_loop_total: "\<exists>st'. pip_loop pt ps st = Inr st'"
proof (induction ps arbitrary: st)
  case Nil
  show ?case by (rule exI [of _ st]) simp
next
  case (Cons p2 ps)
  obtain ins p1 xi where st: "st = (ins, p1, xi)" using prod_cases3 by blast
  from pip_step_total [of pt p2 ins p1 xi] obtain s where "pip_step pt p2 st = Inr s"
    unfolding st by blast
  with Cons.IH [of s] show ?case by simp
qed

lemma point_in_polygon_returns:
  assumes "polygon \<noteq> []"
  shows "\<exists>b. point_in_polygon pt polygon = Inr b"
proof -
  from assms obtain p0 ps where poly: "polygon = p0 # ps" by (cases polygon) auto
  from pip_loop_total [of pt "pip_visits polygon" "(False, p0, None)"]
  obtain st' where "pip_loop pt (pip_visits polygon) (False, p0, None) = Inr st'" by blast
  then show ?thesis by (simp add: point_in_polygon_def poly)
qed

lemma pip_step_indep:
  "\<exists>i. \<forall>xi. \<exists>x. pip_step pt p2 (ins, p1, xi) = Inr (i, p2, x)"
  by (auto simp: pip_step_def pip_assign_def pip_toggle_def min_def max_def)

text \<open>
  C10. The test returns a Boolean for every non-empty polygon and every candidate point:
  neither the division by \<open>p2_lon - p1_lon\<close> nor the read of \<open>xinters\<close> can fail.
  Moreover the parity after an iteration is the same for every value \<open>xinters\<close> had
  before it (also unassigned), so a value left over from an earlier iteration is never
  the one that is read.
\<close>

theorem point_in_polygon_total:
  assumes "polygon \<noteq> []"
  shows "(\<exists>b. point_in_polygon pt polygon = Inr b) \<and>
         (\<forall>p2 ins p1. \<exists>i. \<forall>xi. \<exists>x. pip_step pt p2 (ins, p1, xi) = Inr (i, p2, x))"
  using point_in_polygon_returns [OF assms] pip_step_indep by blast

theorem point_in_polygon_total_witness:
  "[(0, 0), (0, 1), (1, 1), (1, 0)] \<noteq> ([] :: polygon) \<and>
   (\<exists>b. point_in_polygon (1 / 2, 1 / 2) [(0, 0), (0, 1), (1, 1), (1, 0)] = Inr b) \<and>
   (\<forall>p2 ins p1. \<exists>i. \<forall>xi. \<exists>x. pip_step (1 / 2, 1 / 2) p2 (ins, p1, xi) = Inr (i, p2, x))"
  using point_in_polygon_total [of "[(0, 0), (0, 1), (1, 1), (1, 0)]" "(1 / 2, 1 / 2)"]
  by simp

text \<open>
  C2, as stated, fails. On the unit square and the candidate \<open>(1/2, 1/2)\<close> the parity is
  \<open>False\<close> before the edge from \<open>(1, 1)\<close> to \<open>(1, 0)\<close>, whose endpoints have equal
  latitude; that edge toggles it, the last edge does not, and the result \<open>True\<close> is due
  to that toggle alone.
\<close>

theorem equal_latitude_edge_toggles:
  "fst (1 :: real, 1 :: real) = fst (1 :: real, 0 :: real) \<and>
   pip_loop (1 / 2, 1 / 2) [(0, 1), (1, 1)] (False, (0, 0), None) = Inr (False, (1, 1), None) \<and>
   pip_step (1 / 2, 1 / 2) (1, 0) (False, (1, 1), None) = Inr (True, (1, 0), Some 1) \<and>
   pip_step (1 / 2, 1 / 2) (0, 0) (True, (1, 0), Some 1) = Inr (True, (0, 0), Some 1) \<and>
   point_in_polygon (1 / 2, 1 / 2) [(0, 0), (0, 1), (1, 1), (1, 0)] = Inr True"
  by (simp add: point_in_polygon_def pip_visits_def pip_step_def pip_assign_def pip_toggle_def)

text \<open>
  C2, amended. An edge whose endpoints have equal longitude never changes the parity.
  An edge whose endpoints have equal latitude toggles the parity exactly when the
  candidate's longitude is above the smaller and at most the larger longitude of the
  edge and the candidate's latitude is at most the latitude of the edge.
\<close>

theorem pip_step_axis_parallel_edges:
  "(snd p1 = snd p2 \<longrightarrow> (\<exists>x. pip_step pt p2 (ins, p1, xi) = Inr (ins, p2, x))) \<and>
   (fst p1 = fst p2 \<longrightarrow>
      (\<exists>x. pip_step pt p2 (ins, p1, xi) =
         Inr (if min (snd p1) (snd p2) < snd pt \<and> snd pt \<le> max (snd p1) (snd p2) \<and> fst pt \<le> fst p1
              then \<not> ins else ins, p2, x)))"
  by (auto simp: pip_step_def pip_assign_def pip_toggle_def)

theorem pip_step_axis_parallel_edges_witness:
  "snd (0 :: real, 1 :: real) = snd (1 :: real, 1 :: real) \<and>
   (\<exists>x. pip_step (1 / 2, 1 / 2) (1, 1) (False, (0, 1), None) = Inr (False, (1, 1), x)) \<and>
   fst (1 :: real, 1 :: real) = fst (1 :: real, 0 :: real) \<and>
   (\<exists>x. pip_step (1 / 2, 1 / 2) (1, 0) (False, (1, 1), None) = Inr (True, (1, 0), x))"
  using pip_step_axis_parallel_edges [of "(0, 1)" "(1, 1)" "(1 / 2, 1 / 2)" False None]
        pip_step_axis_parallel_edges [of "(1, 1)" "(1, 0)" "(1 / 2, 1 / 2)" False None]
  by simp

section \<open>Properties of the zone sampler\<close>

lemma returned_simps [simp]:
  "returned (Inl e) = Inl e"
  "returned (Inr (x, s)) = Inr x"
  by (simp_all add: returned_def)

lemma rng_drop_0 [simp]: "rng_drop 0 g = g"
  by (simp add: rng_drop_def)

lemma rng_drop_drop [simp]: "rng_drop a (rng_drop b g) = rng_drop (a + b) g"
  by (simp add: rng_drop_def fun_eq_iff add.assoc add.commute add.left_commute)

lemma rng_next_eq: "rng_next g = (g 0, rng_drop 1 g)"
  by (simp add: rng_next_def rng_drop_def)

lemma unit_draws_drop: "unit_draws g \<Longrightarrow> unit_draws (rng_drop k g)"
  by (simp add: unit_draws_def rng_drop_def)

lemma candidate_drop: "candidate bb (rng_drop 2 g) j = candidate bb g (Suc j)"
  by (cases bb) (simp add: candidate_def rng_drop_def)

lemma retry_loop_Suc:
  "retry_loop (Suc k) bounds bb g =
     bind_res (point_in_polygon (candidate bb g 0) bounds) (\<lambda>b.
       if b then Inr (Some (candidate bb g 0), rng_drop 2 g)
       else retry_loop k bounds bb (rng_drop 2 g))"
  by (cases bb) (simp add: uniform_def rng_next_eq candidate_def rng_drop_def cong: if_cong)

declare retry_loop.simps(2) [simp del]

lemma retry_loop_found_inside:
  "retry_loop k bounds bb g = Inr (Some p, g') \<Longrightarrow> point_in_polygon p bounds = Inr True"
proof (induction k arbitrary: g)
  case 0
  then show ?case by simp
next
  case (Suc k)
  from Suc.prems obtain b where b: "point_in_polygon (candidate bb g 0) bounds = Inr b"
    and rest: "(if b then Inr (Some (candidate bb g 0), rng_drop 2 g)
                else retry_loop k bounds bb (rng_drop 2 g)) = Inr (Some p, g')"
    unfolding retry_loop_Suc bind_res_Inr_iff by blast
  show ?case
  proof (cases b)
    case True
    with rest b show ?thesis by simp
  next
    case False
    with rest Suc.IH show ?thesis by simp
  qed
qed

lemma retry_loop_char:
  assumes "bounds \<noteq> []"
  shows "(\<exists>j<k. (\<forall>i<j. point_in_polygon (candidate bb g i) bounds = Inr False) \<and>
             point_in_polygon (candidate bb g j) bounds = Inr True \<and>
             retry_loop k bounds bb g = Inr (Some (candidate bb g j), rng_drop (2 * j + 2) g)) \<or>
         ((\<forall>i<k. point_in_polygon (candidate bb g i) bounds = Inr False) \<and>
          retry_loop k bounds bb g = Inr (None, rng_drop (2 * k) g))"
proof (induction k arbitrary: g)
  case 0
  show ?case by simp
next
  case (Suc k)
  from point_in_polygon_returns [OF assms]
  obtain b where b: "point_in_polygon (candidate bb g 0) bounds = Inr b" by blast
  show ?case
  proof (cases b)
    case True
    with b have "retry_loop (Suc k) bounds bb g = Inr (Some (candidate bb g 0), rng_drop (2 * 0 + 2) g)"
      by (simp add: retry_loop_Suc numeral_2_eq_2)
    moreover have "\<forall>i<(0::nat). point_in_polygon (candidate bb g i) bounds = Inr False" by simp
    moreover have "(0::nat) < Suc k" by simp
    moreover from b True have "point_in_polygon (candidate bb g 0) bounds = Inr True" by simp
    ultimately show ?thesis by blast
  next
    case False
    with b have step: "retry_loop (Suc k) bounds bb g = retry_loop k bounds bb (rng_drop 2 g)"
      by (simp add: retry_loop_Suc)
    from b False have c0: "point_in_polygon (candidate bb g 0) bounds = Inr False" by simp
    from Suc.IH [of "rng_drop 2 g"] show ?thesis
    proof (elim disjE exE conjE)
      fix j
      assume j: "j < k"
        and before: "\<forall>i<j. point_in_polygon (candidate bb (rng_drop 2 g) i) bounds = Inr False"
        and hit: "point_in_polygon (candidate bb (rng_drop 2 g) j) bounds = Inr True"
        and ret: "retry_loop k bounds bb (rng_drop 2 g) =
                    Inr (Some (candidate bb (rng_drop 2 g) j), rng_drop (2 * j + 2) (rng_drop 2 g))"
      have "\<forall>i<Suc j. point_in_polygon (candidate bb g i) bounds = Inr False"
      proof (intro allI impI)
        fix i assume "i < Suc j"
        then show "point_in_polygon (candidate bb g i) bounds = Inr False"
          using c0 before by (cases i) (simp_all add: candidate_drop)
      qed
      moreover have "point_in_polygon (candidate bb g (Suc j)) bounds = Inr True"
        using hit by (simp add: candidate_drop)
      moreover have "retry_loop (Suc k) bounds bb g =
          Inr (Some (candidate bb g (Suc j)), rng_drop (2 * Suc j + 2) g)"
        using ret step by (simp add: candidate_drop)
      moreover have "Suc j < Suc k" using j by simp
      ultimately show ?thesis by blast
    next
      assume none: "\<forall>i<k. point_in_polygon (candidate bb (rng_drop 2 g) i) bounds = Inr False"
        and ret: "retry_loop k bounds bb (rng_drop 2 g) = Inr (None, rng_drop (2 * k) (rng_drop 2 g))"
      have "\<forall>i<Suc k. point_in_polygon (candidate bb g i) bounds = Inr False"
      proof (intro allI impI)
        fix i assume "i < Suc k"
        then show "point_in_polygon (candidate bb g i) bounds = Inr False"
          using c0 none by (cases i) (simp_all add: candidate_drop)
      qed
      moreover have "retry_loop (Suc k) bounds bb g = Inr (None, rng_drop (2 * Suc k) g)"
        using ret step by simp
      ultimately show ?thesis by blast
    qed
  qed
qed

lemma py_min_eq: "xs \<noteq> [] \<Longrightarrow> py_min xs = Inr (Min (set xs))"
  by (cases xs) (simp_all add: Min.set_eq_fold [symmetric])

lemma py_max_eq: "xs \<noteq> [] \<Longrightarrow> py_max xs = Inr (Max (set xs))"
  by (cases xs) (simp_all add: Max.set_eq_fold [symmetric])

lemma bounding_box_eq:
  "bounds \<noteq> [] \<Longrightarrow> bounding_box bounds = Inr (vertex_box bounds)"
  by (simp add: bounding_box_def py_min_eq py_max_eq vertex_box_def)

lemma centroid_eq:
  "bounds \<noteq> [] \<Longrightarrow>
   centroid bounds = Inr (fl (float_sum (map fst bounds) / real (length bounds)),
                          fl (float_sum (map snd bounds) / real (length bounds)))"
  by (simp add: centroid_def mean_def)

lemma generate_point_in_bounds_char:
  assumes "bounds \<noteq> []"
  shows "(\<exists>j<100. (\<forall>i<j. point_in_polygon (candidate (vertex_box bounds) g i) bounds = Inr False) \<and>
             point_in_polygon (candidate (vertex_box bounds) g j) bounds = Inr True \<and>
             generate_point_in_bounds bounds g =
               Inr (candidate (vertex_box bounds) g j, rng_drop (2 * j + 2) g)) \<or>
         ((\<forall>i<100. point_in_polygon (candidate (vertex_box bounds) g i) bounds = Inr False) \<and>
          generate_point_in_bounds bounds g =
            Inr ((fl (float_sum (map fst bounds) / real (length bounds)),
                  fl (float_sum (map snd bounds) / real (length bounds))), rng_drop 200 g))"
proof -
  have gen: "generate_point_in_bounds bounds g =
      bind_res (retry_loop 100 bounds (vertex_box bounds) g) (\<lambda>res.
        case fst res of
          Some p \<Rightarrow> Inr (p, snd res)
        | None \<Rightarrow> Inr ((fl (float_sum (map fst bounds) / real (length bounds)),
                         fl (float_sum (map snd bounds) / real (length bounds))), snd res))"
    using assms
    by (simp add: generate_point_in_bounds_def bounding_box_eq centroid_eq cong: option.case_cong)
  from retry_loop_char [OF assms, of 100 "vertex_box bounds" g] show ?thesis
  proof (elim disjE exE conjE)
    fix j
    assume "j < 100"
      and "\<forall>i<j. point_in_polygon (candidate (vertex_box bounds) g i) bounds = Inr False"
      and "point_in_polygon (candidate (vertex_box bounds) g j) bounds = Inr True"
      and ret: "retry_loop 100 bounds (vertex_box bounds) g =
                  Inr (Some (candidate (vertex_box bounds) g j), rng_drop (2 * j + 2) g)"
    moreover from ret have "generate_point_in_bounds bounds g =
        Inr (candidate (vertex_box bounds) g j, rng_drop (2 * j + 2) g)"
      by (simp add: gen)
    ultimately show ?thesis by blast
  next
    assume "\<forall>i<100. point_in_polygon (candidate (vertex_box bounds) g i) bounds = Inr False"
      and ret: "retry_loop 100 bounds (vertex_box bounds) g = Inr (None, rng_drop (2 * 100) g)"
    moreover from ret have "generate_point_in_bounds bounds g =
        Inr ((fl (float_sum (map fst bounds) / real (length bounds)),
              fl (float_sum (map snd bounds) / real (length bounds))), rng_drop 200 g)"
      by (simp add: gen)
    ultimately show ?thesis by blast
  qed
qed







text \<open>
  C1. When the retry loop of the zone sampler returns a point (its early \<open>return\<close>, not
  the centroid fallback), the sampler returns that point, and the point-in-polygon test
  on the same polygon answers \<open>True\<close> for it.
\<close>

theorem sampler_retry_point_inside:
  assumes "bounding_box bounds = Inr bb"
    and "returned (retry_loop 100 bounds bb g) = Inr (Some p)"
  shows "returned (generate_point_in_bounds bounds g) = Inr p \<and> point_in_polygon p bounds = Inr True"
proof -
  from assms(2) obtain g' where ret: "retry_loop 100 bounds bb g = Inr (Some p, g')"
    by (cases "retry_loop 100 bounds bb g") (auto simp: returned_def)
  then have "generate_point_in_bounds bounds g = Inr (p, g')"
    using assms(1) by (simp add: generate_point_in_bounds_def)
  with retry_loop_found_inside [OF ret] show ?thesis by simp
qed

theorem sampler_retry_point_inside_witness:
  "bounding_box [(0, 0), (0, 1), (1, 1), (1, 0)] = Inr (0, 1, 0, 1) \<and>
   returned (retry_loop 100 [(0, 0), (0, 1), (1, 1), (1, 0)] (0, 1, 0, 1) (\<lambda>i. 1 / 2)) = Inr (Some (1 / 2, 1 / 2)) \<and>
   returned (generate_point_in_bounds [(0, 0), (0, 1), (1, 1), (1, 0)] (\<lambda>i. 1 / 2)) = Inr (1 / 2, 1 / 2) \<and>
   point_in_polygon (1 / 2, 1 / 2) [(0, 0), (0, 1), (1, 1), (1, 0)] = Inr True"
proof -
  have h1: "bounding_box [(0, 0), (0, 1), (1, 1), (1, 0)] = Inr (0, 1, 0, 1)"
    by code_simp
  have h2: "returned (retry_loop 100 [(0, 0), (0, 1), (1, 1), (1, 0)] (0, 1, 0, 1) (\<lambda>i. 1 / 2)) = Inr (Some (1 / 2, 1 / 2))"
    by code_simp
  from sampler_retry_point_inside [OF h1 h2] h1 h2 show ?thesis by simp
qed




text \<open>
  C3. For a polygon with at least one vertex the zone sampler returns, and never raises.
  The box \<open>bb\<close> it draws from is the bounding box of the vertices. Either some candidate
  \<open>j < 100\<close> is the first that passes the membership test, the sampler returns it and
  has consumed \<open>2 (j + 1)\<close> draws; or none of the 100 candidates passes, the sampler
  returns the mean latitude and mean longitude of the vertices, \<open>sum / len\<close> in double
  precision, and has consumed 200 draws. Candidate \<open>j\<close> is drawn with \<open>uniform\<close> from
  \<open>bb\<close>.
\<close>

theorem sampler_retry_policy:
  assumes "bounds \<noteq> []"
  shows "\<exists>bb c. bounding_box bounds = Inr bb \<and> bb = vertex_box bounds \<and>
     centroid bounds = Inr c \<and>
     c = (fl (float_sum (map fst bounds) / real (length bounds)),
          fl (float_sum (map snd bounds) / real (length bounds))) \<and>
     ((\<exists>j<100. (\<forall>i<j. point_in_polygon (candidate bb g i) bounds = Inr False) \<and>
          point_in_polygon (candidate bb g j) bounds = Inr True \<and>
          generate_point_in_bounds bounds g = Inr (candidate bb g j, rng_drop (2 * j + 2) g)) \<or>
      ((\<forall>i<100. point_in_polygon (candidate bb g i) bounds = Inr False) \<and>
       generate_point_in_bounds bounds g = Inr (c, rng_drop 200 g)))"
proof (intro exI conjI)
  show "bounding_box bounds = Inr (vertex_box bounds)" by (rule bounding_box_eq [OF assms])
  show "vertex_box bounds = vertex_box bounds" by (rule refl)
  show "centroid bounds = Inr (fl (float_sum (map fst bounds) / real (length bounds)),
                               fl (float_sum (map snd bounds) / real (length bounds)))"
    by (rule centroid_eq [OF assms])
  show "(fl (float_sum (map fst bounds) / real (length bounds)),
         fl (float_sum (map snd bounds) / real (length bounds))) =
        (fl (float_sum (map fst bounds) / real (length bounds)),
         fl (float_sum (map snd bounds) / real (length bounds)))" by (rule refl)
  show "(\<exists>j<100. (\<forall>i<j. point_in_polygon (candidate (vertex_box bounds) g i) bounds = Inr False) \<and>
          point_in_polygon (candidate (vertex_box bounds) g j) bounds = Inr True \<and>
          generate_point_in_bounds bounds g =
            Inr (candidate (vertex_box bounds) g j, rng_drop (2 * j + 2) g)) \<or>
      ((\<forall>i<100. point_in_polygon (candidate (vertex_box bounds) g i) bounds = Inr False) \<and>
       generate_point_in_bounds bounds g =
         Inr ((fl (float_sum (map fst bounds) / real (length bounds)),
               fl (float_sum (map snd bounds) / real (length bounds))), rng_drop 200 g))"
    by (rule generate_point_in_bounds_char [OF assms])
qed

theorem sampler_retry_policy_witness:
  "unit_square \<noteq> [] \<and>
   (\<exists>bb c. bounding_box unit_square = Inr bb \<and> bb = vertex_box unit_square \<and>
     centroid unit_square = Inr c \<and>
     c = (fl (float_sum (map fst unit_square) / real (length unit_square)),
          fl (float_sum (map snd unit_square) / real (length unit_square))) \<and>
     ((\<exists>j<100. (\<forall>i<j. point_in_polygon (candidate bb (\<lambda>i. 0) i) unit_square = Inr False) \<and>
          point_in_polygon (candidate bb (\<lambda>i. 0) j) unit_square = Inr True \<and>
          generate_point_in_bounds unit_square (\<lambda>i. 0) =
            Inr (candidate bb (\<lambda>i. 0) j, rng_drop (2 * j + 2) (\<lambda>i. 0))) \<or>
      ((\<forall>i<100. point_in_polygon (candidate bb (\<lambda>i. 0) i) unit_square = Inr False) \<and>
       generate_point_in_bounds unit_square (\<lambda>i. 0) = Inr (c, rng_drop 200 (\<lambda>i. 0))))) \<and>
   bounding_box unit_square = Inr (0, 1, 0, 1) \<and>
   returned (generate_point_in_bounds unit_square (\<lambda>i. 0)) = Inr (1 / 2, 1 / 2) \<and>
   returned (generate_point_in_bounds unit_square (\<lambda>i. 1 / 2)) = Inr (1 / 2, 1 / 2) \<and>
   returned (generate_point_in_bounds [(0, 0), (0, 2), (2, 1)] (\<lambda>i. 0))
     = Inr (6004799503160661 / 9007199254740992, 1)"
proof -
  have h: "unit_square \<noteq> []" by (simp add: unit_square_def)
  have e0: "bounding_box unit_square = Inr (0, 1, 0, 1)" by code_simp
  have e1: "returned (generate_point_in_bounds unit_square (\<lambda>i. 0)) = Inr (1 / 2, 1 / 2)"
    by code_simp
  have e2: "returned (generate_point_in_bounds unit_square (\<lambda>i. 1 / 2)) = Inr (1 / 2, 1 / 2)"
    by code_simp
  have e3: "returned (generate_point_in_bounds [(0, 0), (0, 2), (2, 1)] (\<lambda>i. 0))
     = Inr (6004799503160661 / 9007199254740992, 1)" by code_simp
  from h sampler_retry_policy [OF h, of "\<lambda>i. 0"] e0 e1 e2 e3 show ?thesis
    by (intro conjI)
qed

section \<open>Properties of the hotspot aggregator\<close>

lemma bin_key_None_iff: "bin_key r = None \<longleftrightarrow> latitude r = None \<or> longitude r = None"
  by (simp add: bin_key_def split: option.splits)

lemma map_filter_dropna:
  "List.map_filter bin_key (dropna_coords df) = List.map_filter bin_key df"
  by (induction df)
     (auto simp: dropna_coords_def bin_key_def split: option.splits)

lemma dropna_empty_keys: "dropna_coords df = [] \<Longrightarrow> List.map_filter bin_key df = []"
  using map_filter_dropna [of df] by simp

lemma group_sizes_Nil: "group_sizes [] = []"
  by (simp add: group_sizes_def)

lemma hotspots_eq:
  "show_map_points_and_heat df t =
     filter (\<lambda>kc. t < int (snd kc)) (group_sizes (List.map_filter bin_key df))"
proof (cases "dropna_coords df = []")
  case True
  then show ?thesis
    by (simp add: show_map_points_and_heat_def dropna_empty_keys group_sizes_Nil)
next
  case False
  then show ?thesis
    by (simp add: show_map_points_and_heat_def map_filter_dropna)
qed

lemma count_list_keys: "count_list (List.map_filter bin_key df) k = bucket_count df k"
  by (induction df) (auto simp: bucket_count_def split: option.splits)

lemma set_group_sizes: "set (group_sizes keys) = (\<lambda>k. (k, count_list keys k)) ` set keys"
  by (simp add: group_sizes_def)

lemma distinct_group_sizes: "distinct (map fst (group_sizes keys))"
  by (simp add: group_sizes_def comp_def)

lemma key_present_iff: "k \<in> set (List.map_filter bin_key df) \<longleftrightarrow> 0 < bucket_count df k"
  using count_list_keys [of df k] count_list_0_iff [of "List.map_filter bin_key df" k] by auto

lemma hotspots_mem_iff:
  "(k, c) \<in> set (show_map_points_and_heat df t) \<longleftrightarrow> c = bucket_count df k \<and> 0 < c \<and> t < int c"
  by (auto simp: hotspots_eq set_group_sizes count_list_keys key_present_iff)

text \<open>
  C5. The table of hotspots holds exactly the buckets whose incident count strictly
  exceeds the threshold, each once and with its count: a bucket whose count equals the
  threshold is not in it, and a bucket whose count is the threshold plus one is in it.
  The bucket key is the pair of coordinates rounded to 2 decimals.
\<close>

theorem hotspots_strictly_above_threshold:
  "((k, c) \<in> set (show_map_points_and_heat df t) \<longleftrightarrow>
      c = bucket_count df k \<and> 0 < c \<and> t < int c) \<and>
   distinct (map fst (show_map_points_and_heat df t)) \<and>
   (int (bucket_count df k) = t \<longrightarrow> k \<notin> fst ` set (show_map_points_and_heat df t)) \<and>
   (0 < bucket_count df k \<and> int (bucket_count df k) = t + 1 \<longrightarrow>
      (k, bucket_count df k) \<in> set (show_map_points_and_heat df t))"
proof (intro conjI impI)
  show "(k, c) \<in> set (show_map_points_and_heat df t) \<longleftrightarrow>
      c = bucket_count df k \<and> 0 < c \<and> t < int c"
    by (rule hotspots_mem_iff)
  show "distinct (map fst (show_map_points_and_heat df t))"
    unfolding hotspots_eq by (rule distinct_map_filter) (rule distinct_group_sizes)
next
  assume eq: "int (bucket_count df k) = t"
  show "k \<notin> fst ` set (show_map_points_and_heat df t)"
  proof
    assume "k \<in> fst ` set (show_map_points_and_heat df t)"
    then obtain c where "(k, c) \<in> set (show_map_points_and_heat df t)" by auto
    with eq show False by (simp add: hotspots_mem_iff)
  qed
next
  assume "0 < bucket_count df k \<and> int (bucket_count df k) = t + 1"
  then show "(k, bucket_count df k) \<in> set (show_map_points_and_heat df t)"
    by (simp add: hotspots_mem_iff)
qed

theorem hotspots_strictly_above_threshold_witness:
  "int (bucket_count [\<lparr>latitude = Some 10.004, longitude = Some 20\<rparr>,
                      \<lparr>latitude = Some 10, longitude = Some 19.996\<rparr>,
                      \<lparr>latitude = Some 10, longitude = Some 20\<rparr>,
                      \<lparr>latitude = Some 1, longitude = Some 2\<rparr>] (10, 20)) = 3 \<and>
   (10, 20) \<notin> fst ` set (show_map_points_and_heat
                     [\<lparr>latitude = Some 10.004, longitude = Some 20\<rparr>,
                      \<lparr>latitude = Some 10, longitude = Some 19.996\<rparr>,
                      \<lparr>latitude = Some 10, longitude = Some 20\<rparr>,
                      \<lparr>latitude = Some 1, longitude = Some 2\<rparr>] 3) \<and>
   0 < bucket_count [\<lparr>latitude = Some 10.004, longitude = Some 20\<rparr>,
                      \<lparr>latitude = Some 10, longitude = Some 19.996\<rparr>,
                      \<lparr>latitude = Some 10, longitude = Some 20\<rparr>,
                      \<lparr>latitude = Some 1, longitude = Some 2\<rparr>] (10, 20) \<and>
   int (bucket_count [\<lparr>latitude = Some 10.004, longitude = Some 20\<rparr>,
                      \<lparr>latitude = Some 10, longitude = Some 19.996\<rparr>,
                      \<lparr>latitude = Some 10, longitude = Some 20\<rparr>,
                      \<lparr>latitude = Some 1, longitude = Some 2\<rparr>] (10, 20)) = 2 + 1 \<and>
   ((10, 20), 3) \<in> set (show_map_points_and_heat
                     [\<lparr>latitude = Some 10.004, longitude = Some 20\<rparr>,
                      \<lparr>latitude = Some 10, longitude = Some 19.996\<rparr>,
                      \<lparr>latitude = Some 10, longitude = Some 20\<rparr>,
                      \<lparr>latitude = Some 1, longitude = Some 2\<rparr>] 2) \<and>
   show_map_points_and_heat
                     [\<lparr>latitude = Some 10.004, longitude = Some 20\<rparr>,
                      \<lparr>latitude = Some 10, longitude = Some 19.996\<rparr>,
                      \<lparr>latitude = Some 10, longitude = Some 20\<rparr>,
                      \<lparr>latitude = Some 1, longitude = Some 2\<rparr>] 2 = [((10, 20), 3)]"
proof -
  let ?df = "[\<lparr>latitude = Some 10.004, longitude = Some 20\<rparr>,
              \<lparr>latitude = Some 10, longitude = Some 19.996\<rparr>,
              \<lparr>latitude = Some 10, longitude = Some 20\<rparr>,
              \<lparr>latitude = Some 1, longitude = Some 2\<rparr>]"
  have c: "bucket_count ?df (10, 20) = 3" by code_simp
  have e: "show_map_points_and_heat ?df 2 = [((10, 20), 3)]" by code_simp
  from hotspots_strictly_above_threshold [of "(10, 20)" 3 ?df 3]
       hotspots_strictly_above_threshold [of "(10, 20)" 3 ?df 2] c e
  show ?thesis by simp
qed


lemma hotspots_dropna:
  "show_map_points_and_heat (dropna_coords df) t = show_map_points_and_heat df t"
  by (simp add: hotspots_eq map_filter_dropna)

lemma keys_all_missing:
  "(\<forall>r\<in>set df. latitude r = None \<or> longitude r = None) \<Longrightarrow> List.map_filter bin_key df = []"
  by (induction df) (auto simp: bin_key_def split: option.splits)

text \<open>
  C8, as stated, fails: a row that has a latitude and lacks only its longitude does not
  lack both coordinates, and it is filtered out all the same.
\<close>

theorem dropna_drops_row_with_one_coordinate:
  "latitude \<lparr>latitude = Some 1, longitude = None\<rparr> \<noteq> None \<and>
   dropna_coords [\<lparr>latitude = Some 1, longitude = None\<rparr>] = []"
  by (simp add: dropna_coords_def)

text \<open>
  C8, amended. The rows that are binned are exactly the rows of the input that have both
  coordinates, so a row lacking at least one coordinate is filtered out and has no
  influence on the result; an empty input, and an input in which every row lacks a
  coordinate, give an empty table of hotspots. The function is total.
\<close>

theorem hotspots_missing_coordinates:
  "(r \<in> set (dropna_coords df) \<longleftrightarrow> r \<in> set df \<and> latitude r \<noteq> None \<and> longitude r \<noteq> None) \<and>
   show_map_points_and_heat df t = show_map_points_and_heat (dropna_coords df) t \<and>
   show_map_points_and_heat ([] :: 'a geo_scheme list) t = [] \<and>
   ((\<forall>r\<in>set df. latitude r = None \<or> longitude r = None) \<longrightarrow>
      show_map_points_and_heat df t = [])"
proof (intro conjI impI)
  show "r \<in> set (dropna_coords df) \<longleftrightarrow> r \<in> set df \<and> latitude r \<noteq> None \<and> longitude r \<noteq> None"
    by (simp add: dropna_coords_def)
  show "show_map_points_and_heat df t = show_map_points_and_heat (dropna_coords df) t"
    by (simp add: hotspots_dropna)
  show "show_map_points_and_heat ([] :: 'a geo_scheme list) t = []"
    by (simp add: show_map_points_and_heat_def dropna_coords_def)
next
  assume "\<forall>r\<in>set df. latitude r = None \<or> longitude r = None"
  then show "show_map_points_and_heat df t = []"
    by (simp add: hotspots_eq keys_all_missing group_sizes_Nil)
qed

theorem hotspots_missing_coordinates_witness:
  "list_all (\<lambda>r. latitude r = None \<or> longitude r = None)
     [\<lparr>latitude = Some 1, longitude = None\<rparr>, \<lparr>latitude = None, longitude = None\<rparr>,
      \<lparr>latitude = None, longitude = Some 2\<rparr>] \<and>
   show_map_points_and_heat
     [\<lparr>latitude = Some 1, longitude = None\<rparr>, \<lparr>latitude = None, longitude = None\<rparr>,
      \<lparr>latitude = None, longitude = Some 2\<rparr>] 0 = [] \<and>
   \<lparr>latitude = Some 1, longitude = None\<rparr> \<notin>
     set (dropna_coords [\<lparr>latitude = Some 1, longitude = Some 2\<rparr>, \<lparr>latitude = Some 1, longitude = None\<rparr>]) \<and>
   show_map_points_and_heat
     [\<lparr>latitude = Some 1, longitude = Some 2\<rparr>, \<lparr>latitude = Some 1, longitude = None\<rparr>] 0 =
   show_map_points_and_heat
     (dropna_coords [\<lparr>latitude = Some 1, longitude = Some 2\<rparr>, \<lparr>latitude = Some 1, longitude = None\<rparr>]) 0"
proof -
  let ?r = "\<lparr>latitude = Some 1, longitude = None\<rparr>"
  let ?df1 = "[?r, \<lparr>latitude = None, longitude = None\<rparr>, \<lparr>latitude = None, longitude = Some 2\<rparr>]"
  let ?df2 = "[\<lparr>latitude = Some 1, longitude = Some 2\<rparr>, ?r]"
  have h: "\<forall>r\<in>set ?df1. latitude r = None \<or> longitude r = None" by simp
  have l: "list_all (\<lambda>r. latitude r = None \<or> longitude r = None) ?df1" by simp
  from hotspots_missing_coordinates [of ?r ?df1 0] h
  have e1: "show_map_points_and_heat ?df1 0 = []" by blast
  have n: "longitude ?r = None" by simp
  from hotspots_missing_coordinates [of ?r ?df2 0] n
  have e2: "?r \<notin> set (dropna_coords ?df2)" by blast
  from hotspots_missing_coordinates [of ?r ?df2 0]
  have e3: "show_map_points_and_heat ?df2 0 = show_map_points_and_heat (dropna_coords ?df2) 0"
    by blast
  from l e1 e2 e3 show ?thesis by (intro conjI)
qed

section \<open>Properties of the random source\<close>

lemma floor_draw:
  assumes "0 \<le> r" and "r < 1" and "0 < n"
  shows "0 \<le> \<lfloor>r * real_of_int n\<rfloor> \<and> \<lfloor>r * real_of_int n\<rfloor> < n"
proof -
  have "0 \<le> r * real_of_int n" using assms by simp
  moreover have "r * real_of_int n < 1 * real_of_int n"
    using assms by (intro mult_strict_right_mono) simp_all
  ultimately show ?thesis by (simp add: floor_less_iff)
qed

lemma randint_eq:
  "randint a b g =
     (if a \<le> b then Inr (a + \<lfloor>g 0 * real_of_int (b + 1 - a)\<rfloor>, rng_drop 1 g) else Inl ValueError)"
  by (simp add: randint_def randrange_def randbelow_def rng_next_eq)

lemma randint_ok:
  assumes "unit_draws g" and "a \<le> b"
  shows "\<exists>k. randint a b g = Inr (k, rng_drop 1 g) \<and> a \<le> k \<and> k \<le> b"
proof -
  from assms(1) have "0 \<le> g 0" "g 0 < 1" by (simp_all add: unit_draws_def)
  from floor_draw [OF this, of "b + 1 - a"] assms(2) show ?thesis
    by (simp add: randint_eq)
qed

lemma randint_Inr:
  assumes "randint a b g = Inr (k, g')"
  shows "a \<le> b \<and> g' = rng_drop 1 g \<and> (unit_draws g \<longrightarrow> a \<le> k \<and> k \<le> b)"
proof -
  from assms have ab: "a \<le> b" by (simp add: randint_eq split: if_splits)
  from assms ab have "g' = rng_drop 1 g" by (simp add: randint_eq)
  moreover have "a \<le> k \<and> k \<le> b" if "unit_draws g"
    using randint_ok [OF that ab] assms by auto
  ultimately show ?thesis using ab by blast
qed

lemma choice_eq:
  "choice seq g =
     (if seq = [] then Inl IndexError
      else if 0 \<le> \<lfloor>g 0 * real (length seq)\<rfloor> \<and> \<lfloor>g 0 * real (length seq)\<rfloor> < int (length seq)
           then Inr (seq ! nat \<lfloor>g 0 * real (length seq)\<rfloor>, rng_drop 1 g)
           else Inl IndexError)"
  by (simp add: choice_def randbelow_def rng_next_eq)

lemma choice_ok:
  assumes "unit_draws g" and "seq \<noteq> []"
  shows "\<exists>x. choice seq g = Inr (x, rng_drop 1 g) \<and> x \<in> set seq"
proof -
  from assms(1) have "0 \<le> g 0" "g 0 < 1" by (simp_all add: unit_draws_def)
  from floor_draw [OF this, of "int (length seq)"] assms(2)
  have k: "0 \<le> \<lfloor>g 0 * real (length seq)\<rfloor> \<and> \<lfloor>g 0 * real (length seq)\<rfloor> < int (length seq)"
    by simp
  then have "nat \<lfloor>g 0 * real (length seq)\<rfloor> < length seq" by linarith
  then have "seq ! nat \<lfloor>g 0 * real (length seq)\<rfloor> \<in> set seq" by (rule nth_mem)
  with k assms(2) show ?thesis by (simp add: choice_eq)
qed

lemma choice_Inr: "choice seq g = Inr (x, g') \<Longrightarrow> seq \<noteq> [] \<and> g' = rng_drop 1 g"
  by (auto simp: choice_eq split: if_splits)

lemma generate_point_ok:
  assumes "bounds \<noteq> []"
  shows "\<exists>p j. generate_point_in_bounds bounds g = Inr (p, rng_drop j g)"
  using generate_point_in_bounds_char [OF assms, of g] by blast

lemma generate_point_Inr:
  assumes "generate_point_in_bounds bounds g = Inr (p, g')"
  shows "bounds \<noteq> [] \<and> (\<exists>j. g' = rng_drop j g)"
proof -
  have ne: "bounds \<noteq> []"
  proof
    assume "bounds = []"
    with assms show False by (simp add: generate_point_in_bounds_def bounding_box_def)
  qed
  from generate_point_ok [OF ne, of g] assms ne show ?thesis by auto
qed

section \<open>Properties of the synthetic incident generator\<close>

lemma timedelta_Inr:
  "timedelta d h m s = Inr td \<Longrightarrow> td = (((d * 24 + h) * 60 + m) * 60 + s) * 1000000"
  by (simp add: timedelta_def Let_def split: if_splits)

lemma timedelta_ok:
  assumes "0 \<le> d" "d \<le> 3652059" "0 \<le> h" "h \<le> 23" "0 \<le> m" "m \<le> 59" "0 \<le> s" "s \<le> 59"
  shows "timedelta d h m s = Inr ((((d * 24 + h) * 60 + m) * 60 + s) * 1000000)"
proof -
  let ?us = "(((d * 24 + h) * 60 + m) * 60 + s) * 1000000"
  have lo: "0 \<le> ?us" using assms by simp
  have hi: "?us \<le> 3652060 * us_per_day" using assms by (simp add: us_per_day_def)
  from lo have "0 \<le> ?us div us_per_day" by (simp add: us_per_day_def pos_imp_zdiv_nonneg_iff)
  moreover from hi have "?us div us_per_day \<le> (3652060 * us_per_day) div us_per_day"
    by (intro zdiv_mono1) (simp_all add: us_per_day_def)
  then have "?us div us_per_day \<le> 3652060" by (simp add: us_per_day_def)
  ultimately have "\<bar>?us div us_per_day\<bar> \<le> 999999999" by simp
  then show ?thesis by (simp add: timedelta_def Let_def)
qed

lemma row_date_Inr:
  assumes "unit_draws g" and "row_date now days_back g = Inr (t, g')"
  shows "g' = rng_drop 3 g \<and> now - (days_back * us_per_day + 86340000000) \<le> t \<and> t \<le> now"
proof -
  from assms(2) obtain d h m td
    where d: "randint 0 days_back g = Inr d"
      and h: "randint 0 23 (snd d) = Inr h"
      and m: "randint 0 59 (snd h) = Inr m"
      and td: "timedelta (fst d) (fst h) (fst m) 0 = Inr td"
      and sub: "datetime_sub now td = Inr t"
      and g': "g' = snd m"
    unfolding row_date_def bind_res_Inr_iff by auto
  from randint_Inr [of 0 days_back g "fst d" "snd d"] d assms(1)
  have d1: "snd d = rng_drop 1 g" "0 \<le> fst d" "fst d \<le> days_back" by simp_all
  from randint_Inr [of 0 23 "snd d" "fst h" "snd h"] h d1(1) unit_draws_drop [OF assms(1), of 1]
  have h1: "snd h = rng_drop 2 g" "0 \<le> fst h" "fst h \<le> 23" by (simp_all add: eval_nat_numeral)
  from randint_Inr [of 0 59 "snd h" "fst m" "snd m"] m h1(1) unit_draws_drop [OF assms(1), of 2]
  have m1: "snd m = rng_drop 3 g" "0 \<le> fst m" "fst m \<le> 59" by (simp_all add: eval_nat_numeral)
  from timedelta_Inr [OF td]
  have tdv: "td = (((fst d * 24 + fst h) * 60 + fst m) * 60 + 0) * 1000000" .
  from sub have t: "t = now - td" by (simp add: datetime_sub_def split: if_splits)
  from tdv d1 h1 m1 have "0 \<le> td" by simp
  moreover from tdv d1 h1 m1 have "td \<le> days_back * us_per_day + 86340000000"
    by (simp add: us_per_day_def)
  ultimately show ?thesis using t g' m1(1) by simp
qed

lemma row_date_ok:
  assumes "unit_draws g" and "0 \<le> days_back"
    and "(days_back + 1) * us_per_day \<le> now" and "now < 3652059 * us_per_day"
  shows "\<exists>t. row_date now days_back g = Inr (t, rng_drop 3 g)"
proof -
  from randint_ok [OF assms(1), of 0 days_back] assms(2)
  obtain d where d: "randint 0 days_back g = Inr (d, rng_drop 1 g)" "0 \<le> d" "d \<le> days_back"
    by auto
  from randint_ok [OF unit_draws_drop [OF assms(1), of 1], of 0 23]
  obtain h where h: "randint 0 23 (rng_drop 1 g) = Inr (h, rng_drop 2 g)" "0 \<le> h" "h \<le> 23"
    by (auto simp: eval_nat_numeral)
  from randint_ok [OF unit_draws_drop [OF assms(1), of 2], of 0 59]
  obtain m where m: "randint 0 59 (rng_drop 2 g) = Inr (m, rng_drop 3 g)" "0 \<le> m" "m \<le> 59"
    by (auto simp: eval_nat_numeral)
  let ?td = "(((d * 24 + h) * 60 + m) * 60 + 0) * 1000000"
  from assms(3,4) have "days_back < 3652059" by (simp add: us_per_day_def)
  with d have dmax: "d \<le> 3652059" by simp
  have td: "timedelta d h m 0 = Inr ?td"
    using d(2) dmax h(2,3) m(2,3) by (intro timedelta_ok) simp_all
  have "0 \<le> ?td" using d h m by simp
  moreover have "?td < (days_back + 1) * us_per_day" using d h m by (simp add: us_per_day_def)
  ultimately have "datetime_sub now ?td = Inr (now - ?td)"
    using assms(3,4) by (simp add: datetime_sub_def)
  with d(1) h(1) m(1) td show ?thesis by (simp add: row_date_def)
qed

lemma row_tail_Inr: "row_tail g = Inr (x, g') \<Longrightarrow> g' = rng_drop 10 g"
  by (auto simp: row_tail_def bind_res_Inr_iff rng_next_eq randint_eq eval_nat_numeral
           dest!: choice_Inr)

lemma row_tail_ok:
  assumes "unit_draws g"
  shows "\<exists>x. row_tail g = Inr (x, rng_drop 10 g)"
proof -
  from choice_ok [OF assms, of "[''AV'', ''CALLE'', ''JR'']"]
  obtain pre where pre: "choice [''AV'', ''CALLE'', ''JR''] g = Inr (pre, rng_drop 1 g)" by auto
  from choice_ok [OF unit_draws_drop [OF assms, of 3], of LOCATIONS_AREQUIPA]
  obtain loc where loc: "choice LOCATIONS_AREQUIPA (rng_drop 3 g) = Inr (loc, rng_drop 4 g)"
    by (auto simp: LOCATIONS_AREQUIPA_def eval_nat_numeral)
  from pre loc show ?thesis
    by (simp add: row_tail_def randint_eq rng_next_eq eval_nat_numeral)
qed

lemma descriptions_nonempty: "dict_get CRIME_TYPES_AREQUIPA k [''Incidente''] \<noteq> []"
  by (simp add: dict_get_def CRIME_TYPES_AREQUIPA_def)

lemma gen_row_Inr:
  assumes "unit_draws g"
    and "gen_row now ms zone_bounds crime_types days_back i g = Inr (r, g')"
  shows "unit_draws g' \<and> now - (days_back * us_per_day + 86340000000) \<le> date r \<and> date r \<le> now"
proof -
  from assms(2) obtain pt primary descr rd rest
    where pt: "generate_point_in_bounds zone_bounds g = Inr pt"
      and primary: "choice crime_types (snd pt) = Inr primary"
      and descr: "choice (dict_get CRIME_TYPES_AREQUIPA (fst primary) [''Incidente''])
                    (snd primary) = Inr descr"
      and rd: "row_date now days_back (snd descr) = Inr rd"
      and rest: "row_tail (snd rd) = Inr rest"
      and r: "date r = fst rd" and g': "g' = snd rest"
    unfolding gen_row_def bind_res_Inr_iff by (auto split: prod.splits)
  from generate_point_Inr [of zone_bounds g "fst pt" "snd pt"] pt assms(1)
  have u1: "unit_draws (snd pt)" by (auto intro: unit_draws_drop)
  from choice_Inr [of crime_types "snd pt" "fst primary" "snd primary"] primary u1
  have u2: "unit_draws (snd primary)" by (auto intro: unit_draws_drop)
  from choice_Inr [of _ "snd primary" "fst descr" "snd descr"] descr u2
  have u3: "unit_draws (snd descr)" by (auto intro: unit_draws_drop)
  from row_date_Inr [OF u3, of now days_back "fst rd" "snd rd"] rd
  have b: "snd rd = rng_drop 3 (snd descr)"
    "now - (days_back * us_per_day + 86340000000) \<le> fst rd" "fst rd \<le> now" by simp_all
  from b(1) u3 have u4: "unit_draws (snd rd)" by (auto intro: unit_draws_drop)
  from row_tail_Inr [of "snd rd" "fst rest" "snd rest"] rest u4
  have "unit_draws (snd rest)" by (auto intro: unit_draws_drop)
  with b r g' show ?thesis by simp
qed

lemma gen_row_ok:
  assumes "unit_draws g" and "zone_bounds \<noteq> []" and "crime_types \<noteq> []" and "0 \<le> days_back"
    and "(days_back + 1) * us_per_day \<le> now" and "now < 3652059 * us_per_day"
  shows "\<exists>r j. gen_row now ms zone_bounds crime_types days_back i g = Inr (r, rng_drop j g)"
proof -
  from generate_point_ok [OF assms(2), of g]
  obtain p j where p: "generate_point_in_bounds zone_bounds g = Inr (p, rng_drop j g)" by blast
  have u1: "unit_draws (rng_drop j g)" by (rule unit_draws_drop [OF assms(1)])
  from choice_ok [OF u1 assms(3)]
  obtain primary where primary: "choice crime_types (rng_drop j g) = Inr (primary, rng_drop (1 + j) g)"
    by auto
  have u2: "unit_draws (rng_drop (1 + j) g)" by (rule unit_draws_drop [OF assms(1)])
  from choice_ok [OF u2 descriptions_nonempty [of primary]]
  obtain descr where descr: "choice (dict_get CRIME_TYPES_AREQUIPA primary [''Incidente''])
      (rng_drop (1 + j) g) = Inr (descr, rng_drop (2 + j) g)"
    by (auto simp: eval_nat_numeral)
  have u3: "unit_draws (rng_drop (2 + j) g)" by (rule unit_draws_drop [OF assms(1)])
  from row_date_ok [OF u3 assms(4,5,6)]
  obtain t where t: "row_date now days_back (rng_drop (2 + j) g) = Inr (t, rng_drop (5 + j) g)"
    by (auto simp: eval_nat_numeral)
  have u4: "unit_draws (rng_drop (5 + j) g)" by (rule unit_draws_drop [OF assms(1)])
  from row_tail_ok [OF u4]
  obtain x where x: "row_tail (rng_drop (5 + j) g) = Inr (x, rng_drop (15 + j) g)"
    by (auto simp: eval_nat_numeral)
  from p primary descr t x
  have "\<exists>r. gen_row now ms zone_bounds crime_types days_back i g = Inr (r, rng_drop (15 + j) g)"
    by (simp add: gen_row_def split_beta)
  then show ?thesis by blast
qed

lemma gen_rows_Inr:
  assumes "unit_draws g"
    and "gen_rows now time_ms zone_bounds crime_types days_back idx g = Inr (rows, g')"
    and "r \<in> set rows"
  shows "now - (days_back * us_per_day + 86340000000) \<le> date r \<and> date r \<le> now"
  using assms
proof (induction idx arbitrary: g rows g')
  case Nil
  then show ?case by simp
next
  case (Cons i idx)
  from Cons.prems(2) obtain r1 rs
    where r1: "gen_row now (time_ms i) zone_bounds crime_types days_back i g = Inr r1"
      and rs: "gen_rows now time_ms zone_bounds crime_types days_back idx (snd r1) = Inr rs"
      and rows: "rows = fst r1 # fst rs"
    by (auto simp: bind_res_Inr_iff)
  from gen_row_Inr [OF Cons.prems(1), of now "time_ms i" zone_bounds crime_types days_back i
      "fst r1" "snd r1"] r1
  have u: "unit_draws (snd r1)"
    and b: "now - (days_back * us_per_day + 86340000000) \<le> date (fst r1)" "date (fst r1) \<le> now"
    by simp_all
  from Cons.prems(3) rows have "r = fst r1 \<or> r \<in> set (fst rs)" by simp
  then show ?case
  proof
    assume "r = fst r1"
    with b show ?thesis by simp
  next
    assume "r \<in> set (fst rs)"
    with Cons.IH [OF u, of "fst rs" "snd rs"] rs show ?thesis by simp
  qed
qed

lemma gen_rows_ok:
  assumes "unit_draws g" and "zone_bounds \<noteq> []" and "crime_types \<noteq> []" and "0 \<le> days_back"
    and "(days_back + 1) * us_per_day \<le> now" and "now < 3652059 * us_per_day"
  shows "\<exists>rows j. gen_rows now time_ms zone_bounds crime_types days_back idx g =
                     Inr (rows, rng_drop j g) \<and> length rows = length idx"
  using assms(1)
proof (induction idx arbitrary: g)
  case Nil
  have "gen_rows now time_ms zone_bounds crime_types days_back [] g = Inr ([], rng_drop 0 g)"
    by simp
  then show ?case by (intro exI [of _ "[]"] exI [of _ 0]) simp
next
  case (Cons i idx)
  from gen_row_ok [OF Cons.prems assms(2-6), of "time_ms i" i]
  obtain r j where r: "gen_row now (time_ms i) zone_bounds crime_types days_back i g =
      Inr (r, rng_drop j g)" by blast
  from Cons.IH [OF unit_draws_drop [OF Cons.prems, of j]]
  obtain rows k where rows: "gen_rows now time_ms zone_bounds crime_types days_back idx (rng_drop j g) =
      Inr (rows, rng_drop k (rng_drop j g))" "length rows = length idx" by blast
  from r rows have "gen_rows now time_ms zone_bounds crime_types days_back (i # idx) g =
      Inr (r # rows, rng_drop (k + j) g)" by simp
  moreover have "length (r # rows) = length (i # idx)" using rows(2) by simp
  ultimately show ?case by blast
qed

lemma generate_ok:
  assumes "zone_bounds \<noteq> []" and "crime_types \<noteq> Some []" and "0 \<le> days_back"
    and "unit_draws (env_rng env)"
    and "(days_back + 1) * us_per_day \<le> env_now env" and "env_now env < 3652059 * us_per_day"
  shows "\<exists>rows env'. generate_random_records_in_zone n zone_bounds crime_types days_back
           store_in_session env = Inr (rows, env') \<and> length rows = nat n"
proof -
  let ?types = "case crime_types of None \<Rightarrow> map fst CRIME_TYPES_AREQUIPA | Some ts \<Rightarrow> ts"
  have ne: "?types \<noteq> []"
    using assms(2) by (cases crime_types) (simp_all add: CRIME_TYPES_AREQUIPA_def)
  from gen_rows_ok [OF assms(4) assms(1) ne assms(3) assms(5,6), of "env_time_ms env" "[0..<nat n]"]
  obtain rows j where "gen_rows (env_now env) (env_time_ms env) zone_bounds ?types days_back
      [0..<nat n] (env_rng env) = Inr (rows, rng_drop j (env_rng env))" "length rows = nat n"
    by auto
  then show ?thesis by (simp add: generate_random_records_in_zone_def Let_def)
qed

text \<open>
  C4, as stated, fails: with an empty category list the generator raises \<open>IndexError\<close>
  (\<open>random.choice\<close> of an empty list), with a negative \<open>days_back\<close> it raises
  \<open>ValueError\<close> (\<open>random.randint(0, days_back)\<close>), and with a \<open>days_back\<close> that reaches
  before \<open>datetime.min\<close> it raises \<open>OverflowError\<close>.
\<close>

theorem generator_raises_on_bad_arguments:
  "returned (generate_random_records_in_zone 1 unit_square (Some []) 30 True demo_env)
     = Inl IndexError \<and>
   returned (generate_random_records_in_zone 1 unit_square None (- 1) True demo_env)
     = Inl ValueError \<and>
   returned (generate_random_records_in_zone 1 unit_square None 2000000 True demo_env)
     = Inl OverflowError"
  by code_simp

text \<open>
  C4, amended. For every \<open>n\<close> (a negative \<open>n\<close> counting as 0), every polygon with at
  least one vertex, every non-empty category list (or none), every \<open>days_back \<ge> 0\<close> such
  that \<open>days_back + 1\<close> days before the current time is still a \<open>datetime\<close>, and a random
  source with draws in \<open>[0, 1)\<close>, the generator returns exactly \<open>n\<close> records and does not
  raise.
\<close>

theorem generator_returns_n_records:
  assumes "zone_bounds \<noteq> []" and "crime_types \<noteq> Some []" and "0 \<le> days_back"
    and "unit_draws (env_rng env)"
    and "(days_back + 1) * us_per_day \<le> env_now env" and "env_now env < 3652059 * us_per_day"
  shows "\<exists>rows env'. generate_random_records_in_zone n zone_bounds crime_types days_back
           store_in_session env = Inr (rows, env') \<and> length rows = nat n"
  using assms by (rule generate_ok)

theorem generator_returns_n_records_witness:
  "unit_square \<noteq> [] \<and> (None :: string list option) \<noteq> Some [] \<and> (0 :: int) \<le> 30 \<and>
   unit_draws (env_rng demo_env) \<and>
   (30 + 1) * us_per_day \<le> env_now demo_env \<and> env_now demo_env < 3652059 * us_per_day \<and>
   (\<exists>rows env'. generate_random_records_in_zone 2 unit_square None 30 True demo_env
        = Inr (rows, env') \<and> length rows = nat 2) \<and>
   map id_col (fst (projr (generate_random_records_in_zone 2 unit_square None 30 True demo_env)))
     = [''ARQ-1700000000000-0'', ''ARQ-1700000000000-1'']"
proof -
  have h1: "unit_square \<noteq> []" by (simp add: unit_square_def)
  have h2: "(None :: string list option) \<noteq> Some []" by simp
  have h3: "(0 :: int) \<le> 30" by simp
  have h4: "unit_draws (env_rng demo_env)" by (simp add: unit_draws_def demo_env_def)
  have h5: "(30 + 1) * us_per_day \<le> env_now demo_env" by (simp add: us_per_day_def demo_env_def)
  have h6: "env_now demo_env < 3652059 * us_per_day" by (simp add: us_per_day_def demo_env_def)
  have e: "map id_col (fst (projr (generate_random_records_in_zone 2 unit_square None 30 True demo_env)))
     = [''ARQ-1700000000000-0'', ''ARQ-1700000000000-1'']" by code_simp
  from h1 h2 h3 h4 h5 h6
       generator_returns_n_records [OF h1 h2 h3 h4 h5 h6, of 2 True] e
  show ?thesis by (intro conjI)
qed

text \<open>
  C6, as stated, fails: with \<open>days_back = 1\<close> and draws \<open>1/2\<close> the generator subtracts
  1 day, 12 hours and 30 minutes, and the timestamp lies before \<open>now - 1 day\<close>.
\<close>

theorem generated_timestamp_before_days_back:
  "map date (fst (projr (generate_random_records_in_zone 1 unit_square None 1 True demo_env)))
     = [63899868600000000] \<and>
   63899868600000000 < env_now demo_env - 1 * us_per_day"
proof -
  have "map date (fst (projr (generate_random_records_in_zone 1 unit_square None 1 True demo_env)))
     = [63899868600000000]" by code_simp
  moreover have "63899868600000000 < env_now demo_env - 1 * us_per_day"
    by (simp add: demo_env_def us_per_day_def)
  ultimately show ?thesis by (intro conjI)
qed

text \<open>
  C6, amended. For every record the generator returns, with draws of the random source in
  \<open>[0, 1)\<close>, the timestamp lies within
  \<open>[now - (days_back days + 23 hours + 59 minutes), now]\<close>, \<open>now\<close> being the time of
  generation; 23 hours and 59 minutes are 86340000000 microseconds.
\<close>

theorem generated_timestamp_range:
  assumes "unit_draws (env_rng env)"
    and "returned (generate_random_records_in_zone n zone_bounds crime_types days_back
           store_in_session env) = Inr rows"
    and "r \<in> set rows"
  shows "env_now env - (days_back * us_per_day + 86340000000) \<le> date r \<and> date r \<le> env_now env"
proof -
  let ?types = "case crime_types of None \<Rightarrow> map fst CRIME_TYPES_AREQUIPA | Some ts \<Rightarrow> ts"
  from assms(2) obtain g' where "gen_rows (env_now env) (env_time_ms env) zone_bounds ?types
      days_back [0..<nat n] (env_rng env) = Inr (rows, g')"
    by (auto simp: generate_random_records_in_zone_def Let_def returned_def bind_res_def
             split: sum.splits)
  from gen_rows_Inr [OF assms(1) this assms(3)] show ?thesis .
qed

theorem generated_timestamp_range_witness:
  "unit_draws (env_rng demo_env) \<and>
   returned (generate_random_records_in_zone 1 unit_square None 1 True demo_env)
     = Inr (fst (projr (generate_random_records_in_zone 1 unit_square None 1 True demo_env))) \<and>
   hd (fst (projr (generate_random_records_in_zone 1 unit_square None 1 True demo_env)))
     \<in> set (fst (projr (generate_random_records_in_zone 1 unit_square None 1 True demo_env))) \<and>
   env_now demo_env - (1 * us_per_day + 86340000000)
     \<le> date (hd (fst (projr (generate_random_records_in_zone 1 unit_square None 1 True demo_env)))) \<and>
   date (hd (fst (projr (generate_random_records_in_zone 1 unit_square None 1 True demo_env))))
     \<le> env_now demo_env \<and>
   map date (fst (projr (generate_random_records_in_zone 1 unit_square None 1 True demo_env)))
     = [63899868600000000]"
proof -
  let ?X = "generate_random_records_in_zone 1 unit_square None 1 True demo_env"
  have h1: "unit_draws (env_rng demo_env)" by (simp add: unit_draws_def demo_env_def)
  have "\<exists>rows env'. ?X = Inr (rows, env') \<and> length rows = nat 1"
    by (rule generate_ok) (simp_all add: unit_square_def unit_draws_def demo_env_def us_per_day_def)
  then obtain rows env' where X: "?X = Inr (rows, env')" and len: "length rows = nat 1" by blast
  from X have h2: "returned ?X = Inr (fst (projr ?X))" by simp
  from X len have h3: "hd (fst (projr ?X)) \<in> set (fst (projr ?X))" by (cases rows) simp_all
  have e: "map date (fst (projr ?X)) = [63899868600000000]" by code_simp
  from generated_timestamp_range [OF h1 h2 h3]
  have b: "env_now demo_env - (1 * us_per_day + 86340000000) \<le> date (hd (fst (projr ?X)))"
    "date (hd (fst (projr ?X))) \<le> env_now demo_env" by simp_all
  from h1 h2 h3 b e show ?thesis by (intro conjI)
qed

section \<open>Properties of the storage step\<close>

lemma enforce_recent_date_ok:
  assumes "unit_draws g" and "7200000000 \<le> now" and "now < 3652059 * us_per_day"
  shows "\<exists>r'. enforce_recent_date now rec g = Inr (r', rng_drop 2 g) \<and> restamped now rec r'"
proof -
  from randint_ok [OF assms(1), of 0 59]
  obtain em where em: "randint 0 59 g = Inr (em, rng_drop 1 g)" "0 \<le> em" "em \<le> 59" by auto
  from randint_ok [OF unit_draws_drop [OF assms(1), of 1], of 0 59]
  obtain es where es: "randint 0 59 (rng_drop 1 g) = Inr (es, rng_drop 2 g)" "0 \<le> es" "es \<le> 59"
    by (auto simp: eval_nat_numeral)
  let ?td = "(((0 * 24 + 1) * 60 + em) * 60 + es) * 1000000"
  have td: "timedelta 0 1 em es = Inr ?td"
    using em(2,3) es(2,3) by (intro timedelta_ok) simp_all
  have lo: "3600000000 \<le> ?td" using em es by simp
  have hi: "?td < 7200000000" using em es by simp
  from lo hi assms(2,3) have sub: "datetime_sub now ?td = Inr (now - ?td)"
    by (simp add: datetime_sub_def)
  let ?r = "rec\<lparr> date := now - ?td, updated_on := now, year := year_of (now - ?td) \<rparr>"
  from em(1) es(1) td sub have "enforce_recent_date now rec g = Inr (?r, rng_drop 2 g)"
    by (simp add: enforce_recent_date_def)
  moreover from lo hi have "restamped now rec ?r" by (simp add: restamped_def)
  ultimately show ?thesis by blast
qed

lemma enforce_all_restamps:
  assumes "\<forall>i. 7200000000 \<le> now_at i \<and> now_at i < 3652059 * us_per_day"
    and "unit_draws g"
  shows "length (fst (enforce_all now_at k recs g)) = length recs \<and>
         (\<forall>j<length recs. restamped (now_at (k + j)) (recs ! j) (fst (enforce_all now_at k recs g) ! j))"
  using assms(2)
proof (induction recs arbitrary: k g)
  case Nil
  show ?case by simp
next
  case (Cons r rs)
  from assms(1) have n: "7200000000 \<le> now_at k" "now_at k < 3652059 * us_per_day" by simp_all
  from enforce_recent_date_ok [OF Cons.prems n, of r]
  obtain r' where r': "enforce_recent_date (now_at k) r g = Inr (r', rng_drop 2 g)"
    and st: "restamped (now_at k) r r'" by blast
  obtain rs' g'' where rest: "enforce_all now_at (Suc k) rs (rng_drop 2 g) = (rs', g'')"
    by (cases "enforce_all now_at (Suc k) rs (rng_drop 2 g)") auto
  from r' rest have all: "enforce_all now_at k (r # rs) g = (r' # rs', g'')" by simp
  from Cons.IH [OF unit_draws_drop [OF Cons.prems, of 2], of "Suc k"] rest
  have len: "length rs' = length rs"
    and each: "\<forall>j<length rs. restamped (now_at (Suc k + j)) (rs ! j) (rs' ! j)" by simp_all
  have "\<forall>j<length (r # rs). restamped (now_at (k + j)) ((r # rs) ! j) ((r' # rs') ! j)"
  proof (intro allI impI)
    fix j assume "j < length (r # rs)"
    then show "restamped (now_at (k + j)) ((r # rs) ! j) ((r' # rs') ! j)"
      using st each by (cases j) simp_all
  qed
  with len all show ?case by simp
qed

text \<open>
  C7, as stated, fails: the record the generator produced has another \<open>date\<close> and another
  \<open>updated_on\<close> after it has been handed to \<open>insert_crimes\<close>.
\<close>

theorem insert_crimes_changes_date:
  "map date (fst (projr (generate_random_records_in_zone 1 unit_square None 1 True demo_env)))
     = [63899868600000000] \<and>
   map date (fst (insert_crimes
       (fst (projr (generate_random_records_in_zone 1 unit_square None 1 True demo_env)))
       demo_store)) = [63899994630000000] \<and>
   map updated_on (fst (projr (generate_random_records_in_zone 1 unit_square None 1 True demo_env)))
     = [63900000000000000] \<and>
   map updated_on (fst (insert_crimes
       (fst (projr (generate_random_records_in_zone 1 unit_square None 1 True demo_env)))
       demo_store)) = [63900000060000000]"
  by code_simp

text \<open>
  C7, amended. Handing a batch of records to the storage step keeps their number and
  order and leaves every field of every record as it was, except \<open>date\<close>, \<open>updated_on\<close>
  and \<open>year\<close>, which it overwrites: \<open>date\<close> with a time more than one and less than two
  hours before the time of the call, \<open>updated_on\<close> with the time of the call and \<open>year\<close>
  with the year of the new \<open>date\<close>. The clock is taken to read at least two hours after
  \<open>datetime.min\<close>, the draws of the random source to lie in \<open>[0, 1)\<close>.
\<close>

theorem insert_crimes_overwrites_dates:
  assumes "unit_draws (st_rng env)"
    and "\<forall>k. 7200000000 \<le> st_now env k \<and> st_now env k < 3652059 * us_per_day"
  shows "length (fst (insert_crimes records env)) = length records \<and>
         (\<forall>k<length records.
            restamped (st_now env k) (records ! k) (fst (insert_crimes records env) ! k))"
proof (cases "records = []")
  case True
  then show ?thesis by (simp add: insert_crimes_def)
next
  case False
  from enforce_all_restamps [OF assms(2) assms(1), of 0 records] False
  show ?thesis by (simp add: insert_crimes_def split_beta)
qed

theorem insert_crimes_overwrites_dates_witness:
  "unit_draws (st_rng demo_store) \<and>
   (\<forall>k. 7200000000 \<le> st_now demo_store k \<and> st_now demo_store k < 3652059 * us_per_day) \<and>
   length (fst (insert_crimes
       (fst (projr (generate_random_records_in_zone 1 unit_square None 1 True demo_env)))
       demo_store)) = 1 \<and>
   restamped (st_now demo_store 0)
     (fst (projr (generate_random_records_in_zone 1 unit_square None 1 True demo_env)) ! 0)
     (fst (insert_crimes
       (fst (projr (generate_random_records_in_zone 1 unit_square None 1 True demo_env)))
       demo_store) ! 0) \<and>
   map year (fst (insert_crimes
       (fst (projr (generate_random_records_in_zone 1 unit_square None 1 True demo_env)))
       demo_store)) = [2025] \<and>
   map id_col (fst (insert_crimes
       (fst (projr (generate_random_records_in_zone 1 unit_square None 1 True demo_env)))
       demo_store)) = [''ARQ-1700000000000-0'']"
proof -
  let ?recs = "fst (projr (generate_random_records_in_zone 1 unit_square None 1 True demo_env))"
  have h1: "unit_draws (st_rng demo_store)" by (simp add: unit_draws_def demo_store_def)
  have h2: "\<forall>k. 7200000000 \<le> st_now demo_store k \<and> st_now demo_store k < 3652059 * us_per_day"
    by (simp add: demo_store_def us_per_day_def)
  have len: "length ?recs = 1" by code_simp
  from insert_crimes_overwrites_dates [OF h1 h2, of ?recs] len
  have c1: "length (fst (insert_crimes ?recs demo_store)) = 1"
    and c2: "restamped (st_now demo_store 0) (?recs ! 0) (fst (insert_crimes ?recs demo_store) ! 0)"
    by simp_all
  have e1: "map year (fst (insert_crimes ?recs demo_store)) = [2025]" by code_simp
  have e2: "map id_col (fst (insert_crimes ?recs demo_store)) = [''ARQ-1700000000000-0'']"
    by code_simp
  from h1 h2 c1 c2 e1 e2 show ?thesis by (intro conjI)
qed

end
